theory Spec2Isabelle
  imports Complex_Main
begin

section \<open>Numeric model\<close>

text \<open>
  The registration code computes with C++ \<open>float\<close> (Eigen matrices of \<open>float\<close>).
  A value of that type is modelled as either a finite number, idealised as a real
  (rounding and overflow are not modelled), or a non-finite value
  (\<open>NonFin\<close>: NaN, which is what \<open>0/0\<close> yields, or an infinity, which is what
  \<open>x/0\<close> yields for \<open>x \<noteq> 0\<close>). Arithmetic on a non-finite operand stays non-finite,
  as it does for NaN; a division by zero is non-finite; a comparison with a
  non-finite operand is false, as it is for NaN.

  Underflow is modelled where a weight that enters a divisor is stored in a \<open>float\<close>
  (the Gaussian weight and the combined weight of the Gaussian smoothing): a value of
  magnitude at most \<open>1 / 2 ^ 150\<close>, half the smallest positive \<open>float\<close>, is stored as zero
  (\<open>float_underflow\<close>, \<open>fstore\<close>).
\<close>

datatype fl = Fin real | NonFin

fun fadd :: "fl \<Rightarrow> fl \<Rightarrow> fl" where
  "fadd (Fin a) (Fin b) = Fin (a + b)"
| "fadd _ _ = NonFin"

fun fsub :: "fl \<Rightarrow> fl \<Rightarrow> fl" where
  "fsub (Fin a) (Fin b) = Fin (a - b)"
| "fsub _ _ = NonFin"

fun fmul :: "fl \<Rightarrow> fl \<Rightarrow> fl" where
  "fmul (Fin a) (Fin b) = Fin (a * b)"
| "fmul _ _ = NonFin"

fun fdiv :: "fl \<Rightarrow> fl \<Rightarrow> fl" where
  "fdiv (Fin a) (Fin b) = (if b = 0 then NonFin else Fin (a / b))"
| "fdiv _ _ = NonFin"

fun fgt :: "fl \<Rightarrow> fl \<Rightarrow> bool" where
  "fgt (Fin a) (Fin b) = (a > b)"
| "fgt _ _ = False"

definition float_underflow :: "real \<Rightarrow> real" where
  "float_underflow x = (if \<bar>x\<bar> \<le> 1 / 2 ^ 150 then 0 else x)"

fun fstore :: "fl \<Rightarrow> fl" where
  "fstore (Fin a) = Fin (float_underflow a)"
| "fstore NonFin = NonFin"

text \<open>
  \<open>std::exp\<close> of a \<open>double\<close> whose result is stored in a \<open>float\<close>: it is zero when the
  exponential is too small for a \<open>float\<close>.
\<close>

fun fexp :: "fl \<Rightarrow> fl" where
  "fexp (Fin a) = Fin (float_underflow (exp a))"
| "fexp NonFin = NonFin"

text \<open>\<open>Vec3Float\<close>: three floats. \<open>rvec\<close> is a vector of finite values.\<close>

type_synonym vec3 = "fl \<times> fl \<times> fl"
type_synonym rvec = "real \<times> real \<times> real"

definition vfin :: "rvec \<Rightarrow> vec3" where
  "vfin v = (case v of (x, y, z) \<Rightarrow> (Fin x, Fin y, Fin z))"

definition vzero :: vec3 where
  "vzero = (Fin 0, Fin 0, Fin 0)"

definition vnonfin :: vec3 where
  "vnonfin = (NonFin, NonFin, NonFin)"

fun vadd :: "vec3 \<Rightarrow> vec3 \<Rightarrow> vec3" where
  "vadd (a, b, c) (x, y, z) = (fadd a x, fadd b y, fadd c z)"

fun vsub :: "vec3 \<Rightarrow> vec3 \<Rightarrow> vec3" where
  "vsub (a, b, c) (x, y, z) = (fsub a x, fsub b y, fsub c z)"

fun vscale :: "fl \<Rightarrow> vec3 \<Rightarrow> vec3" where
  "vscale s (x, y, z) = (fmul s x, fmul s y, fmul s z)"

fun vdivs :: "vec3 \<Rightarrow> fl \<Rightarrow> vec3" where
  "vdivs (x, y, z) s = (fdiv x s, fdiv y s, fdiv z s)"

fun vdot :: "vec3 \<Rightarrow> vec3 \<Rightarrow> fl" where
  "vdot (a, b, c) (x, y, z) = fadd (fadd (fmul a x) (fmul b y)) (fmul c z)"

text \<open>Coordinates and sums of finite vectors, used to state results.\<close>

fun rx :: "rvec \<Rightarrow> real" where "rx (x, y, z) = x"
fun ry :: "rvec \<Rightarrow> real" where "ry (x, y, z) = y"
fun rz :: "rvec \<Rightarrow> real" where "rz (x, y, z) = z"

definition rsum :: "rvec list \<Rightarrow> rvec" where
  "rsum vs = (sum_list (map rx vs), sum_list (map ry vs), sum_list (map rz vs))"

fun rdivs :: "rvec \<Rightarrow> real \<Rightarrow> rvec" where
  "rdivs (x, y, z) s = (x / s, y / s, z / s)"

section \<open>Errors, diagnostics and loops\<close>

text \<open>
  Eigen checks indices and operand sizes with assertions that abort the program;
  such an abort is a value of \<open>error\<close>. Messages written to \<open>cerr\<close> do not stop
  the program; a function that writes them returns them as a list of \<open>diag\<close>.
\<close>

datatype error = IndexOutOfRange | SizeMismatch

datatype diag = SizesWrong | RowsNotElements | EigenDecompositionFailed

definition ebind :: "error + 'a \<Rightarrow> ('a \<Rightarrow> error + 'b) \<Rightarrow> error + 'b" where
  "ebind m f = (case m of Inl e \<Rightarrow> Inl e | Inr x \<Rightarrow> f x)"

definition read_at :: "'a list \<Rightarrow> nat \<Rightarrow> error + 'a" where
  "read_at xs i = (if i < length xs then Inr (xs ! i) else Inl IndexOutOfRange)"

definition write_at :: "'a list \<Rightarrow> nat \<Rightarrow> 'a \<Rightarrow> error + 'a list" where
  "write_at xs i v = (if i < length xs then Inr (xs[i := v]) else Inl IndexOutOfRange)"

text \<open>\<open>for (i = ...) body\<close> over the given indices, threading the loop state.\<close>

fun for_loop :: "nat list \<Rightarrow> (nat \<Rightarrow> 's \<Rightarrow> error + 's) \<Rightarrow> 's \<Rightarrow> error + 's" where
  "for_loop [] body s = Inr s"
| "for_loop (i # is) body s = ebind (body i s) (for_loop is body)"

section \<open>vector_block_average\<close>

text \<open>
  \<open>outVector\<close> starts at zero; the loop over \<open>i < numVectors\<close> adds row \<open>i\<close> of
  \<open>inVectors\<close> to it (the weight is not applied) and adds \<open>inWeights[i]\<close> to
  \<open>sumWeights\<close>; then \<open>outVector /= sumWeights\<close>.
\<close>

definition vector_block_average :: "vec3 list \<Rightarrow> fl list \<Rightarrow> error + vec3" where
  "vector_block_average inVectors inWeights =
     (let numVectors = length inVectors in
      ebind (for_loop [0..<numVectors]
               (\<lambda>i (outVector, sumWeights).
                  ebind (read_at inWeights i) (\<lambda>w.
                    Inr (vadd outVector (inVectors ! i), fadd sumWeights w)))
               (vzero, Fin 0))
        (\<lambda>(outVector, sumWeights). Inr (vdivs outVector sumWeights)))"

text \<open>The uniform average of a list of finite vectors: their sum over their number.\<close>

definition uniform_average :: "rvec list \<Rightarrow> rvec" where
  "uniform_average vs = rdivs (rsum vs) (real (length vs))"

section \<open>Matrices\<close>

text \<open>
  A matrix of floats of dynamic size is modelled by its shape and its coefficients,
  row by row; \<open>rows\<close> and \<open>cols\<close> are what \<open>rows()\<close> and \<open>cols()\<close> return. Both
  \<open>SparseMat\<close> (\<open>Eigen::SparseMatrix<float>\<close>, where a coefficient that is not stored
  is zero) and the dense \<open>MatDynFloat\<close> are such matrices.
\<close>

record fmatrix =
  rows :: nat
  cols :: nat
  coeffs :: "fl list list"

type_synonym SparseMat = fmatrix
type_synonym MatDynFloat = fmatrix

definition wf_mat :: "SparseMat \<Rightarrow> bool" where
  "wf_mat M = (length (coeffs M) = rows M \<and> list_all (\<lambda>r. length r = cols M) (coeffs M))"

definition fsum :: "fl list \<Rightarrow> fl" where
  "fsum xs = foldl fadd (Fin 0) xs"

definition transpose_mat :: "SparseMat \<Rightarrow> SparseMat" where
  "transpose_mat M =
     \<lparr>rows = cols M, cols = rows M,
      coeffs = map (\<lambda>j. map (\<lambda>r. r ! j) (coeffs M)) [0..<cols M]\<rparr>"

text \<open>\<open>A += B\<close>: Eigen asserts that the two operands have the same shape.\<close>

definition mat_add :: "SparseMat \<Rightarrow> SparseMat \<Rightarrow> error + SparseMat" where
  "mat_add A B =
     (if rows A = rows B \<and> cols A = cols B
      then Inr \<lparr>rows = rows A, cols = cols A,
                coeffs = map2 (map2 fadd) (coeffs A) (coeffs B)\<rparr>
      else Inl SizeMismatch)"

definition mat_scale :: "fl \<Rightarrow> SparseMat \<Rightarrow> SparseMat" where
  "mat_scale s M = M\<lparr>coeffs := map (map (fmul s)) (coeffs M)\<rparr>"

text \<open>
  Modelled from the spec: \<open>normalize_sparse_matrix\<close> is called by \<open>fuse_affinities\<close>
  and is not among the sources. The specification says of it "re-normalize each row
  to sum to 1": every coefficient of a row is divided by the sum of that row.
\<close>

definition normalize_row :: "fl list \<Rightarrow> fl list" where
  "normalize_row r = map (\<lambda>x. fdiv x (fsum r)) r"

definition normalize_sparse_matrix :: "SparseMat \<Rightarrow> SparseMat" where
  "normalize_sparse_matrix M = M\<lparr>coeffs := map normalize_row (coeffs M)\<rparr>"

section \<open>fuse_affinities\<close>

text \<open>
  The four sizes are all read with \<open>rows()\<close>, as in the source. A failed size check
  writes a message to \<open>cerr\<close> and the function goes on: the transpose of
  \<open>inAffinity2\<close> is added to \<open>ioAffinity1\<close> and the result is normalised.
\<close>

definition fuse_affinities :: "SparseMat \<Rightarrow> SparseMat \<Rightarrow> diag list \<times> (error + SparseMat)" where
  "fuse_affinities ioAffinity1 inAffinity2 =
     (let numRows1 = rows ioAffinity1;
          numRows2 = rows inAffinity2;
          numCols1 = rows ioAffinity1;
          numCols2 = rows inAffinity2;
          diags = (if (numRows1 \<noteq> numCols1) \<or> (numCols1 \<noteq> numRows2)
                   then [SizesWrong] else [])
      in (diags,
          ebind (mat_add ioAffinity1 (transpose_mat inAffinity2))
            (\<lambda>summed. Inr (normalize_sparse_matrix summed))))"

text \<open>
  The fusion as the specification words it: \<open>A_sym = 0.5 (A_fw + A_bw\<^sup>T)\<close>, then each
  row is re-normalised to sum to 1.
\<close>

definition fuse_affinities_spec :: "SparseMat \<Rightarrow> SparseMat \<Rightarrow> error + SparseMat" where
  "fuse_affinities_spec A_fw A_bw =
     ebind (mat_add A_fw (transpose_mat A_bw))
       (\<lambda>summed. Inr (normalize_sparse_matrix (mat_scale (Fin (1 / 2)) summed)))"

text \<open>
  A matrix of finite coefficients, given by its rows; \<open>wf_rows\<close> says that the rows
  fit the shape. \<open>summed_rows\<close> are the rows of \<open>A1 + A2\<^sup>T\<close> for an \<open>n \<times> m\<close> matrix
  \<open>A1\<close> and an \<open>m \<times> n\<close> matrix \<open>A2\<close>.
\<close>

definition fin_mat :: "nat \<Rightarrow> nat \<Rightarrow> real list list \<Rightarrow> SparseMat" where
  "fin_mat n m R = \<lparr>rows = n, cols = m, coeffs = map (map Fin) R\<rparr>"

definition wf_rows :: "nat \<Rightarrow> nat \<Rightarrow> real list list \<Rightarrow> bool" where
  "wf_rows n m R = (length R = n \<and> list_all (\<lambda>r. length r = m) R)"

definition summed_rows :: "real list list \<Rightarrow> real list list \<Rightarrow> real list list" where
  "summed_rows R1 R2 =
     map (\<lambda>i. map2 (+) (R1 ! i) (map (\<lambda>r. r ! i) R2)) [0..<length R1]"

text \<open>A row-stochastic matrix: well-shaped, and every row sums to 1.\<close>

definition row_stochastic :: "SparseMat \<Rightarrow> bool" where
  "row_stochastic M = (wf_mat M \<and> list_all (\<lambda>r. fsum r = Fin 1) (coeffs M))"

section \<open>affinity_to_correspondences\<close>

text \<open>
  A row of a \<open>FeatureMat\<close> is a position followed by a normal
  (\<open>[x, y, z, nx, ny, nz]\<close>); \<open>leftCols(3)\<close> is the position part.
\<close>

type_synonym feature = "vec3 \<times> vec3"

definition feature_zero :: feature where
  "feature_zero = (vzero, vzero)"

fun feature_add :: "feature \<Rightarrow> feature \<Rightarrow> feature" where
  "feature_add (p, n) (q, m) = (vadd p q, vadd n m)"

fun feature_scale :: "fl \<Rightarrow> feature \<Rightarrow> feature" where
  "feature_scale a (p, n) = (vscale a p, vscale a n)"

text \<open>
  The products \<open>inAffinity * inTargetFeatures\<close> and \<open>inAffinity * inTargetFlags\<close>:
  Eigen asserts that the number of columns of the left operand is the number of rows
  of the right one. The result has one row per row of \<open>inAffinity\<close>, and assigning it
  resizes the output.
\<close>

definition mat_times_features :: "MatDynFloat \<Rightarrow> feature list \<Rightarrow> error + feature list" where
  "mat_times_features A F =
     (if cols A = length F
      then Inr (map (\<lambda>r. foldl feature_add feature_zero (map2 feature_scale r F)) (coeffs A))
      else Inl SizeMismatch)"

definition mat_times_vec :: "MatDynFloat \<Rightarrow> fl list \<Rightarrow> error + fl list" where
  "mat_times_vec A v =
     (if cols A = length v
      then Inr (map (\<lambda>r. fsum (map2 fmul r v)) (coeffs A))
      else Inl SizeMismatch)"

text \<open>
  The rounding loop runs over \<open>i < numElements\<close>, where \<open>numElements\<close> is the number
  of rows of \<open>inTargetFeatures\<close>; \<open>outCorrespondingFlags[i]\<close> is read and written with
  Eigen's index check.
\<close>

definition affinity_to_correspondences ::
  "feature list \<Rightarrow> fl list \<Rightarrow> MatDynFloat \<Rightarrow> fl \<Rightarrow> error + (feature list \<times> fl list)" where
  "affinity_to_correspondences inTargetFeatures inTargetFlags inAffinity paramFlagRoundingLimit =
     (let numElements = length inTargetFeatures in
      ebind (mat_times_features inAffinity inTargetFeatures) (\<lambda>outCorrespondingFeatures.
      ebind (mat_times_vec inAffinity inTargetFlags) (\<lambda>weightedFlags.
      ebind (for_loop [0..<numElements]
               (\<lambda>i outCorrespondingFlags.
                  ebind (read_at outCorrespondingFlags i) (\<lambda>flag.
                    if fgt flag paramFlagRoundingLimit
                    then write_at outCorrespondingFlags i (Fin 1)
                    else write_at outCorrespondingFlags i (Fin 0)))
               weightedFlags) (\<lambda>outCorrespondingFlags.
      Inr (outCorrespondingFeatures, outCorrespondingFlags)))))"

text \<open>The default of \<open>paramFlagRoundingLimit\<close>.\<close>

definition default_flag_rounding_limit :: fl where
  "default_flag_rounding_limit = Fin (9 / 10)"

text \<open>What rounding at the limit makes of a weighted flag.\<close>

definition round_flag :: "fl \<Rightarrow> fl \<Rightarrow> fl" where
  "round_flag limit flag = (if fgt flag limit then Fin 1 else Fin 0)"

section \<open>Gaussian smoothing\<close>

text \<open>
  \<open>gaussian_interpolate_vector_field\<close>, instantiated with \<open>Vec3Float\<close> and \<open>Vec3Mat\<close>.
  The loop runs over the rows of \<open>inVectors\<close>; \<open>inVectorPositions.row(i)\<close> and
  \<open>inVectorWeights[i]\<close> are read with Eigen's index check. \<open>gaussianWeight\<close> and
  \<open>combinedWeight\<close> are \<open>const float\<close>: each underflows to zero when it is too small.
  After the loop the accumulated vector is divided by the accumulated weight, whatever
  that is.
\<close>

definition gaussian_interpolate_vector_field ::
  "vec3 \<Rightarrow> vec3 list \<Rightarrow> vec3 list \<Rightarrow> fl list \<Rightarrow> fl \<Rightarrow> error + vec3" where
  "gaussian_interpolate_vector_field inQueriedPosition inVectors inVectorPositions
       inVectorWeights paramSigma =
     (let numVectors = length inVectors in
      ebind (for_loop [0..<numVectors]
               (\<lambda>i (outQueriedVector, sumWeights).
                  ebind (read_at inVectorPositions i) (\<lambda>sourceVectorPosition.
                  ebind (read_at inVectorWeights i) (\<lambda>weight.
                    let distanceVector = vsub sourceVectorPosition inQueriedPosition;
                        distanceSquared = vdot distanceVector distanceVector;
                        gaussianWeight =
                          fexp (fdiv (fmul (Fin (- (1 / 2))) distanceSquared)
                                     (fmul paramSigma paramSigma));
                        combinedWeight = fstore (fmul gaussianWeight weight)
                    in Inr (vadd outQueriedVector (vscale combinedWeight (inVectors ! i)),
                            fadd sumWeights combinedWeight))))
               (vzero, Fin 0))
        (\<lambda>(outQueriedVector, sumWeights). Inr (vdivs outQueriedVector sumWeights)))"

text \<open>
  \<open>k_nearest_neighbours\<close> is not among the sources; it is a parameter \<open>knn\<close> of the
  functions that call it: given the queried points, the source points and \<open>k\<close>, it
  returns the matrix \<open>neighbourIndices\<close>, one row of indices per queried point.
\<close>

type_synonym knn_search = "vec3 list \<Rightarrow> vec3 list \<Rightarrow> nat \<Rightarrow> nat list list"

text \<open>
  \<open>gaussian_smoothing_vector_field\<close>: for each vertex \<open>i\<close> the positions, vectors and
  weights of its \<open>paramNumNeighbours\<close> neighbours are gathered (every read is
  index-checked), interpolated at the position of the vertex, and the result is
  stored in row \<open>i\<close> of \<open>outSmoothedVectors\<close>.
\<close>

definition gather_neighbours ::
  "nat list list \<Rightarrow> nat \<Rightarrow> nat \<Rightarrow> vec3 list \<Rightarrow> vec3 list \<Rightarrow> fl list
     \<Rightarrow> error + (vec3 list \<times> vec3 list \<times> fl list)" where
  "gather_neighbours neighbourIndices i paramNumNeighbours inVectors inVectorPositions
       inVectorWeights =
     for_loop [0..<paramNumNeighbours]
       (\<lambda>j (neighbourPositions, neighbourVectors, neighbourWeights).
          ebind (read_at neighbourIndices i) (\<lambda>row.
          ebind (read_at row j) (\<lambda>neighbourIndex.
          ebind (read_at inVectorPositions neighbourIndex) (\<lambda>p.
          ebind (read_at inVectors neighbourIndex) (\<lambda>v.
          ebind (read_at inVectorWeights neighbourIndex) (\<lambda>w.
            Inr (neighbourPositions[j := p], neighbourVectors[j := v],
                 neighbourWeights[j := w])))))))
       (replicate paramNumNeighbours vzero, replicate paramNumNeighbours vzero,
        replicate paramNumNeighbours (Fin 0))"

definition gaussian_smoothing_vector_field ::
  "knn_search \<Rightarrow> vec3 list \<Rightarrow> vec3 list \<Rightarrow> fl list \<Rightarrow> vec3 list \<Rightarrow> nat \<Rightarrow> fl
     \<Rightarrow> error + vec3 list" where
  "gaussian_smoothing_vector_field knn inVectors inVectorPositions inVectorWeights
       outSmoothedVectors paramNumNeighbours paramSigma =
     (let numVectors = length inVectorPositions;
          neighbourIndices = knn inVectorPositions inVectorPositions paramNumNeighbours
      in for_loop [0..<numVectors]
           (\<lambda>i outSmoothedVectors.
              let position = inVectorPositions ! i in
              ebind (gather_neighbours neighbourIndices i paramNumNeighbours inVectors
                       inVectorPositions inVectorWeights)
                (\<lambda>(neighbourPositions, neighbourVectors, neighbourWeights).
              ebind (gaussian_interpolate_vector_field position neighbourVectors
                       neighbourPositions neighbourWeights paramSigma) (\<lambda>smoothedVector.
              write_at outSmoothedVectors i smoothedVector)))
           outSmoothedVectors)"

section \<open>viscoelastic_transformation\<close>

text \<open>
  The sum and the difference of two \<open>Vec3Mat\<close>: Eigen asserts equal numbers of rows.
\<close>

definition vecmat_add :: "vec3 list \<Rightarrow> vec3 list \<Rightarrow> error + vec3 list" where
  "vecmat_add A B = (if length A = length B then Inr (map2 vadd A B) else Inl SizeMismatch)"

definition vecmat_sub :: "vec3 list \<Rightarrow> vec3 list \<Rightarrow> error + vec3 list" where
  "vecmat_sub A B = (if length A = length B then Inr (map2 vsub A B) else Inl SizeMismatch)"

text \<open>
  \<open>viscoelastic_transformation\<close> on feature matrices. The state of the viscous loop is
  \<open>(forceField, regulatedForceField)\<close>, that of the elastic loop is
  \<open>(unregulatedDisplacementField, ioDisplacementField)\<close>; the last loop adds row \<open>i\<close> of
  \<open>unregulatedDisplacementField\<close> to the position of row \<open>i\<close> of \<open>ioFloatingPositions\<close>.
  The result is the pair of \<open>ioFloatingPositions\<close> and \<open>ioDisplacementField\<close>.
\<close>

definition viscoelastic_transformation ::
  "knn_search \<Rightarrow> feature list \<Rightarrow> feature list \<Rightarrow> fl list \<Rightarrow> vec3 list \<Rightarrow> nat \<Rightarrow> fl
     \<Rightarrow> nat \<Rightarrow> nat \<Rightarrow> error + (feature list \<times> vec3 list)" where
  "viscoelastic_transformation knn ioFloatingPositions inCorrespondingPositions
       inFloatingWeights ioDisplacementField paramNumNeighbourDisplacements
       paramSigmaSmoothing paramNumViscousSmoothingIterations
       paramNumElasticSmoothingIterations =
     (let numVertices = length ioFloatingPositions;
          floatingPositions = map fst ioFloatingPositions
      in
      ebind (vecmat_sub (map fst inCorrespondingPositions) (map fst ioFloatingPositions))
        (\<lambda>forceField.
      ebind (for_loop [0..<paramNumViscousSmoothingIterations]
               (\<lambda>i (forceField, regulatedForceField).
                  ebind (gaussian_smoothing_vector_field knn forceField floatingPositions
                           inFloatingWeights regulatedForceField
                           paramNumNeighbourDisplacements paramSigmaSmoothing)
                    (\<lambda>regulatedForceField. Inr (regulatedForceField, regulatedForceField)))
               (forceField, replicate numVertices vzero))
        (\<lambda>(forceField, regulatedForceField).
      ebind (vecmat_add ioDisplacementField regulatedForceField)
        (\<lambda>unregulatedDisplacementField.
      ebind (for_loop [0..<paramNumElasticSmoothingIterations]
               (\<lambda>i (unregulatedDisplacementField, ioDisplacementField).
                  ebind (gaussian_smoothing_vector_field knn unregulatedDisplacementField
                           (map fst ioFloatingPositions) inFloatingWeights ioDisplacementField
                           paramNumNeighbourDisplacements paramSigmaSmoothing)
                    (\<lambda>ioDisplacementField. Inr (ioDisplacementField, ioDisplacementField)))
               (unregulatedDisplacementField, ioDisplacementField))
        (\<lambda>(unregulatedDisplacementField, ioDisplacementField).
      ebind (for_loop [0..<numVertices]
               (\<lambda>i ioFloatingPositions.
                  ebind (read_at unregulatedDisplacementField i) (\<lambda>d.
                    Inr (ioFloatingPositions
                           [i := (vadd (fst (ioFloatingPositions ! i)) d,
                                  snd (ioFloatingPositions ! i))])))
               ioFloatingPositions)
        (\<lambda>ioFloatingPositions. Inr (ioFloatingPositions, ioDisplacementField)))))))"

section \<open>rigid_transformation\<close>

text \<open>
  \<open>Mat3Float\<close> and \<open>Mat4Float\<close> are given by their rows, \<open>Vec4Float\<close> by its four
  coefficients.
\<close>

type_synonym mat3 = "vec3 \<times> vec3 \<times> vec3"
type_synonym vec4 = "fl \<times> fl \<times> fl \<times> fl"
type_synonym mat4 = "vec4 \<times> vec4 \<times> vec4 \<times> vec4"

text \<open>
  Modelled from the spec: the constant \<open>registration::NUM_FEATURES\<close> is declared in
  \<open>global.hpp\<close>, which is not among the sources. A \<open>FeatureMatrix\<close> is \<open>N \<times> 6\<close>.
\<close>

definition NUM_FEATURES :: nat where
  "NUM_FEATURES = 6"

definition m3zero :: mat3 where
  "m3zero = (vzero, vzero, vzero)"

definition m3identity :: mat3 where
  "m3identity = ((Fin 1, Fin 0, Fin 0), (Fin 0, Fin 1, Fin 0), (Fin 0, Fin 0, Fin 1))"

fun m3add :: "mat3 \<Rightarrow> mat3 \<Rightarrow> mat3" where
  "m3add (a, b, c) (x, y, z) = (vadd a x, vadd b y, vadd c z)"

fun m3sub :: "mat3 \<Rightarrow> mat3 \<Rightarrow> mat3" where
  "m3sub (a, b, c) (x, y, z) = (vsub a x, vsub b y, vsub c z)"

fun m3scale :: "fl \<Rightarrow> mat3 \<Rightarrow> mat3" where
  "m3scale s (a, b, c) = (vscale s a, vscale s b, vscale s c)"

fun m3divs :: "mat3 \<Rightarrow> fl \<Rightarrow> mat3" where
  "m3divs (a, b, c) s = (vdivs a s, vdivs b s, vdivs c s)"

fun m3transpose :: "mat3 \<Rightarrow> mat3" where
  "m3transpose ((a00, a01, a02), (a10, a11, a12), (a20, a21, a22)) =
     ((a00, a10, a20), (a01, a11, a21), (a02, a12, a22))"

fun m3trace :: "mat3 \<Rightarrow> fl" where
  "m3trace ((a00, a01, a02), (a10, a11, a12), (a20, a21, a22)) = fadd (fadd a00 a11) a22"

fun m3vec :: "mat3 \<Rightarrow> vec3 \<Rightarrow> vec3" where
  "m3vec (a, b, c) v = (vdot a v, vdot b v, vdot c v)"

text \<open>The product \<open>u * v\<^sup>T\<close> of a column and a row.\<close>

fun outer :: "vec3 \<Rightarrow> vec3 \<Rightarrow> mat3" where
  "outer (a, b, c) v = (vscale a v, vscale b v, vscale c v)"

fun v4nth :: "vec4 \<Rightarrow> nat \<Rightarrow> fl" where
  "v4nth (a, b, c, d) i = (if i = 0 then a else if i = 1 then b else if i = 2 then c else d)"

fun v4dot :: "vec4 \<Rightarrow> vec4 \<Rightarrow> fl" where
  "v4dot (a, b, c, d) (x, y, z, w) =
     fadd (fadd (fadd (fmul a x) (fmul b y)) (fmul c z)) (fmul d w)"

fun m4col :: "mat4 \<Rightarrow> nat \<Rightarrow> vec4" where
  "m4col (r0, r1, r2, r3) j = (v4nth r0 j, v4nth r1 j, v4nth r2 j, v4nth r3 j)"

fun m4vec :: "mat4 \<Rightarrow> vec4 \<Rightarrow> vec4" where
  "m4vec (r0, r1, r2, r3) v = (v4dot r0 v, v4dot r1 v, v4dot r2 v, v4dot r3 v)"

definition v4m4 :: "vec4 \<Rightarrow> mat4 \<Rightarrow> vec4" where
  "v4m4 r B = (v4dot r (m4col B 0), v4dot r (m4col B 1), v4dot r (m4col B 2), v4dot r (m4col B 3))"

fun m4mul :: "mat4 \<Rightarrow> mat4 \<Rightarrow> mat4" where
  "m4mul (r0, r1, r2, r3) B = (v4m4 r0 B, v4m4 r1 B, v4m4 r2 B, v4m4 r3 B)"

text \<open>
  \<open>Eigen::SelfAdjointEigenSolver<Mat4Float>\<close> belongs to the Eigen library. It is a
  parameter \<open>decomposer\<close> of the model: applied to \<open>Q\<close> it returns whether \<open>info()\<close> is
  \<open>Success\<close>, the vector \<open>eigenvalues()\<close> and the matrix \<open>eigenvectors()\<close>, whose
  columns are the eigenvectors.
\<close>

record eigen_result =
  info_success :: bool
  eigenvalues :: vec4
  eigenvectors :: mat4

type_synonym eigen_solver = "mat4 \<Rightarrow> eigen_result"

text \<open>
  Step 1: the weighted sums of the floating and of the corresponding positions and the
  sum of the weights; the two sums of positions are then divided by the sum of the
  weights, whatever it is.
\<close>

definition rigid_centroids ::
  "nat \<Rightarrow> vec3 list \<Rightarrow> vec3 list \<Rightarrow> fl list \<Rightarrow> error + (vec3 \<times> vec3 \<times> fl)" where
  "rigid_centroids numVertices floatingPositions correspondingPositions inWeights =
     ebind (for_loop [0..<numVertices]
              (\<lambda>i (floatingCentroid, correspondingCentroid, sumWeights).
                 ebind (read_at inWeights i) (\<lambda>w.
                 ebind (read_at floatingPositions i) (\<lambda>f.
                 ebind (read_at correspondingPositions i) (\<lambda>c.
                   Inr (vadd floatingCentroid (vscale w f),
                        vadd correspondingCentroid (vscale w c),
                        fadd sumWeights w)))))
              (vzero, vzero, Fin 0))
       (\<lambda>(floatingCentroid, correspondingCentroid, sumWeights).
          Inr (vdivs floatingCentroid sumWeights, vdivs correspondingCentroid sumWeights,
               sumWeights))"

text \<open>Step 2: the cross-variance matrix.\<close>

definition rigid_cross_variance ::
  "nat \<Rightarrow> vec3 list \<Rightarrow> vec3 list \<Rightarrow> fl list \<Rightarrow> vec3 \<Rightarrow> vec3 \<Rightarrow> fl \<Rightarrow> error + mat3" where
  "rigid_cross_variance numVertices floatingPositions correspondingPositions inWeights
       floatingCentroid correspondingCentroid sumWeights =
     ebind (for_loop [0..<numVertices]
              (\<lambda>i crossVarianceMatrix.
                 ebind (read_at inWeights i) (\<lambda>w.
                 ebind (read_at floatingPositions i) (\<lambda>f.
                 ebind (read_at correspondingPositions i) (\<lambda>c.
                   Inr (m3add crossVarianceMatrix (outer (vscale w f) c))))))
              m3zero)
       (\<lambda>crossVarianceMatrix.
          Inr (m3sub (m3divs crossVarianceMatrix sumWeights)
                     (outer floatingCentroid correspondingCentroid)))"

text \<open>Steps 3 to 5: the anti-symmetric matrix, \<open>delta\<close> and the matrix \<open>Q\<close>.\<close>

definition rigid_Q :: "mat3 \<Rightarrow> mat4" where
  "rigid_Q crossVarianceMatrix =
     (let antiSymmetricMatrix = m3sub crossVarianceMatrix (m3transpose crossVarianceMatrix);
          delta = (case antiSymmetricMatrix of
                     ((a00, a01, a02), (a10, a11, a12), (a20, a21, a22)) \<Rightarrow> (a12, a20, a01));
          block = m3sub (m3add crossVarianceMatrix (m3transpose crossVarianceMatrix))
                        (m3scale (m3trace crossVarianceMatrix) m3identity)
      in case (delta, block) of
           ((d0, d1, d2), ((b00, b01, b02), (b10, b11, b12), (b20, b21, b22))) \<Rightarrow>
             ((m3trace crossVarianceMatrix, d0, d1, d2),
              (d0, b00, b01, b02),
              (d1, b10, b11, b12),
              (d2, b20, b21, b22)))"

text \<open>
  Step 6: the column of \<open>eigenvectors()\<close> at the index of the first eigenvalue that is
  greater than all the earlier ones and than the initial \<open>maxEigenValue = 0.0\<close>
  (index 0 when there is none).
\<close>

definition select_rotation_quaternion :: "eigen_result \<Rightarrow> vec4" where
  "select_rotation_quaternion decomposed =
     (case fold (\<lambda>i (indexMaxVal, maxEigenValue).
                   if fgt (v4nth (eigenvalues decomposed) i) maxEigenValue
                   then (i, v4nth (eigenvalues decomposed) i)
                   else (indexMaxVal, maxEigenValue))
                [0, 1, 2, 3] (0, Fin 0)
      of (indexMaxVal, maxEigenValue) \<Rightarrow> m4col (eigenvectors decomposed) indexMaxVal)"

text \<open>Step 7: the rotation matrix of the quaternion.\<close>

fun rotation_of_quaternion :: "vec4 \<Rightarrow> mat3" where
  "rotation_of_quaternion (q0, q1, q2, q3) =
     ((fsub (fsub (fadd (fmul q0 q0) (fmul q1 q1)) (fmul q2 q2)) (fmul q3 q3),
       fmul (Fin 2) (fsub (fmul q1 q2) (fmul q0 q3)),
       fmul (Fin 2) (fadd (fmul q1 q3) (fmul q0 q2))),
      (fmul (Fin 2) (fadd (fmul q1 q2) (fmul q0 q3)),
       fsub (fsub (fadd (fmul q0 q0) (fmul q2 q2)) (fmul q1 q1)) (fmul q3 q3),
       fmul (Fin 2) (fsub (fmul q2 q3) (fmul q0 q1))),
      (fmul (Fin 2) (fsub (fmul q1 q3) (fmul q0 q2)),
       fmul (Fin 2) (fadd (fmul q2 q3) (fmul q0 q1)),
       fsub (fsub (fadd (fmul q0 q0) (fmul q3 q3)) (fmul q1 q1)) (fmul q2 q2)))"

text \<open>Step 8: the scale factor, 1 unless scaling is asked for.\<close>

definition rigid_scale ::
  "bool \<Rightarrow> nat \<Rightarrow> vec3 list \<Rightarrow> vec3 list \<Rightarrow> fl list \<Rightarrow> vec3 \<Rightarrow> vec3 \<Rightarrow> mat3 \<Rightarrow> error + fl" where
  "rigid_scale paramScaling numVertices floatingPositions correspondingPositions inWeights
       floatingCentroid correspondingCentroid rotMatTemp =
     (if paramScaling
      then ebind (for_loop [0..<numVertices]
                    (\<lambda>i (numerator, denominator).
                       ebind (read_at floatingPositions i) (\<lambda>f.
                       ebind (read_at correspondingPositions i) (\<lambda>c.
                       ebind (read_at inWeights i) (\<lambda>w.
                         let newFloatingPos = m3vec rotMatTemp (vsub f floatingCentroid);
                             newCorrespondingPos = vsub c correspondingCentroid
                         in Inr (fadd numerator (vdot (vscale w newCorrespondingPos) newFloatingPos),
                                 fadd denominator (vdot (vscale w newFloatingPos) newFloatingPos))))))
                    (Fin 0, Fin 0))
             (\<lambda>(numerator, denominator). Inr (fdiv numerator denominator))
      else Inr (Fin 1))"

text \<open>
  Steps 1 to 9. When the feature matrix does not have more rows than columns, a
  warning is written and both position matrices stay zero. The result holds the
  diagnostics, the floating positions, the two centroids, the matrix \<open>Q\<close>, the
  rotation, the scale factor and the translation.
\<close>

record rigid_estimate =
  est_diags :: "diag list"
  est_floatingPositions :: "vec3 list"
  est_floatingCentroid :: vec3
  est_correspondingCentroid :: vec3
  est_Q :: mat4
  est_rotMatTemp :: mat3
  est_scaleFactor :: fl
  est_translation :: vec3

definition rigid_estimation ::
  "eigen_solver \<Rightarrow> feature list \<Rightarrow> feature list \<Rightarrow> fl list \<Rightarrow> bool \<Rightarrow> error + rigid_estimate" where
  "rigid_estimation decomposer ioFeatures inCorrespondingFeatures inWeights paramScaling =
     (let numVertices = length ioFeatures;
          numFeatures = NUM_FEATURES;
          elementsInRows = (numVertices > numFeatures \<and> numFeatures = NUM_FEATURES);
          floatingPositions =
            (if elementsInRows then map fst ioFeatures else replicate numVertices vzero);
          correspondingPositions =
            (if elementsInRows then map fst inCorrespondingFeatures
             else replicate numVertices vzero)
      in
      ebind (rigid_centroids numVertices floatingPositions correspondingPositions inWeights)
        (\<lambda>(floatingCentroid, correspondingCentroid, sumWeights).
      ebind (rigid_cross_variance numVertices floatingPositions correspondingPositions
               inWeights floatingCentroid correspondingCentroid sumWeights)
        (\<lambda>crossVarianceMatrix.
      let decomposed = decomposer (rigid_Q crossVarianceMatrix);
          rotQuat = select_rotation_quaternion decomposed;
          rotMatTemp = rotation_of_quaternion rotQuat
      in
      ebind (rigid_scale paramScaling numVertices floatingPositions correspondingPositions
               inWeights floatingCentroid correspondingCentroid rotMatTemp)
        (\<lambda>scaleFactor.
      Inr \<lparr>est_diags = (if elementsInRows then [] else [RowsNotElements])
                         @ (if info_success decomposed then [] else [EigenDecompositionFailed]),
           est_floatingPositions = floatingPositions,
           est_floatingCentroid = floatingCentroid,
           est_correspondingCentroid = correspondingCentroid,
           est_Q = rigid_Q crossVarianceMatrix,
           est_rotMatTemp = rotMatTemp,
           est_scaleFactor = scaleFactor,
           est_translation =
             vsub correspondingCentroid
                  (m3vec (m3scale scaleFactor rotMatTemp) floatingCentroid)\<rparr>))))"

text \<open>
  Step 10: the homogeneous matrices; \<open>transformationMatrix\<close> is
  \<open>rotationMatrix * translationMatrix\<close>.
\<close>

fun translation_matrix :: "vec3 \<Rightarrow> mat4" where
  "translation_matrix (tx, ty, tz) =
     ((Fin 1, Fin 0, Fin 0, tx),
      (Fin 0, Fin 1, Fin 0, ty),
      (Fin 0, Fin 0, Fin 1, tz),
      (Fin 0, Fin 0, Fin 0, Fin 1))"

fun rotation_matrix :: "mat3 \<Rightarrow> mat4" where
  "rotation_matrix ((a00, a01, a02), (a10, a11, a12), (a20, a21, a22)) =
     ((a00, a01, a02, Fin 0),
      (a10, a11, a12, Fin 0),
      (a20, a21, a22, Fin 0),
      (Fin 0, Fin 0, Fin 0, Fin 1))"

definition rigid_transformation_matrix :: "fl \<Rightarrow> mat3 \<Rightarrow> vec3 \<Rightarrow> mat4" where
  "rigid_transformation_matrix scaleFactor rotMatTemp translation =
     (let translationMatrix = translation_matrix translation;
          rotationMatrix = rotation_matrix (m3scale scaleFactor rotMatTemp)
      in m4mul rotationMatrix translationMatrix)"

text \<open>
  The last loop: \<open>position4d\<close> starts as \<open>(1, 1, 1, 1)\<close> and is kept from one vertex to
  the next; for vertex \<open>i\<close> its first three coefficients are set to the floating
  position, it is multiplied by \<open>transformationMatrix\<close>, and its first three
  coefficients are stored in columns 0 to 2 of row \<open>i\<close> of \<open>ioFeatures\<close>.
\<close>

fun set_head3 :: "vec4 \<Rightarrow> vec3 \<Rightarrow> vec4" where
  "set_head3 (a, b, c, d) (x, y, z) = (x, y, z, d)"

fun head3 :: "vec4 \<Rightarrow> vec3" where
  "head3 (a, b, c, d) = (a, b, c)"

definition rigid_apply :: "mat4 \<Rightarrow> vec3 list \<Rightarrow> feature list \<Rightarrow> error + (vec4 \<times> feature list)" where
  "rigid_apply transformationMatrix floatingPositions ioFeatures =
     for_loop [0..<length ioFeatures]
       (\<lambda>i (position4d, ioFeatures).
          ebind (read_at floatingPositions i) (\<lambda>f.
            let position4d = m4vec transformationMatrix (set_head3 position4d f)
            in Inr (position4d, ioFeatures[i := (head3 position4d, snd (ioFeatures ! i))])))
       ((Fin 1, Fin 1, Fin 1, Fin 1), ioFeatures)"

definition rigid_transformation ::
  "eigen_solver \<Rightarrow> feature list \<Rightarrow> feature list \<Rightarrow> fl list \<Rightarrow> bool
     \<Rightarrow> error + (diag list \<times> feature list)" where
  "rigid_transformation decomposer ioFeatures inCorrespondingFeatures inWeights paramScaling =
     ebind (rigid_estimation decomposer ioFeatures inCorrespondingFeatures inWeights
              paramScaling) (\<lambda>est.
     ebind (rigid_apply (rigid_transformation_matrix (est_scaleFactor est)
                           (est_rotMatTemp est) (est_translation est))
              (est_floatingPositions est) ioFeatures) (\<lambda>(position4d, ioFeatures).
     Inr (est_diags est, ioFeatures)))"

section \<open>Finite vectors\<close>

text \<open>Arithmetic on vectors of finite values, used to state what the code computes.\<close>

fun radd :: "rvec \<Rightarrow> rvec \<Rightarrow> rvec" where
  "radd (a, b, c) (x, y, z) = (a + x, b + y, c + z)"

fun rsub :: "rvec \<Rightarrow> rvec \<Rightarrow> rvec" where
  "rsub (a, b, c) (x, y, z) = (a - x, b - y, c - z)"

fun rscale :: "real \<Rightarrow> rvec \<Rightarrow> rvec" where
  "rscale s (x, y, z) = (s * x, s * y, s * z)"

fun rdot :: "rvec \<Rightarrow> rvec \<Rightarrow> real" where
  "rdot (a, b, c) (x, y, z) = a * x + b * y + c * z"

text \<open>
  The weight that \<open>gaussian_interpolate_vector_field\<close> gives to a neighbour at position
  \<open>p\<close> with user weight \<open>w\<close>, for the queried position \<open>q\<close>: the Gaussian of the distance
  (zero when it underflows) times \<open>w\<close> (zero when the product underflows).
  \<open>weighted_vector_sum\<close> is the sum of the vectors, each times its weight.
\<close>

definition combined_weight :: "real \<Rightarrow> rvec \<Rightarrow> rvec \<Rightarrow> real \<Rightarrow> real" where
  "combined_weight sigma q p w =
     float_underflow
       (float_underflow (exp (- (1 / 2) * rdot (rsub p q) (rsub p q) / (sigma * sigma))) * w)"

definition combined_weights :: "real \<Rightarrow> rvec \<Rightarrow> rvec list \<Rightarrow> real list \<Rightarrow> real list" where
  "combined_weights sigma q ps ws = map2 (combined_weight sigma q) ps ws"




text \<open>
  A neighbour search that returns a given matrix of indices whatever the points are,
  for evaluating the functions at concrete inputs.
\<close>

definition fixed_neighbours :: "nat list list \<Rightarrow> knn_search" where
  "fixed_neighbours neighbourIndices queried source k = neighbourIndices"

section \<open>Inputs for evaluating rigid_transformation\<close>

text \<open>
  A solver that returns a given decomposition, and the test that a decomposition is one
  of \<open>Q\<close> as Eigen returns it: the eigenvalues in increasing order and, for each of
  them, a column of unit length that \<open>Q\<close> maps to the eigenvalue times itself.
\<close>

definition constant_solver :: "eigen_result \<Rightarrow> eigen_solver" where
  "constant_solver decomposed Q = decomposed"

fun v4scale :: "fl \<Rightarrow> vec4 \<Rightarrow> vec4" where
  "v4scale s (a, b, c, d) = (fmul s a, fmul s b, fmul s c, fmul s d)"

definition is_eigen_decomposition :: "mat4 \<Rightarrow> eigen_result \<Rightarrow> bool" where
  "is_eigen_decomposition Q decomposed =
     (list_all (\<lambda>j. m4vec Q (m4col (eigenvectors decomposed) j)
                       = v4scale (v4nth (eigenvalues decomposed) j)
                                 (m4col (eigenvectors decomposed) j)
                   \<and> v4dot (m4col (eigenvectors decomposed) j)
                            (m4col (eigenvectors decomposed) j) = Fin 1)
               [0, 1, 2, 3]
      \<and> list_all (\<lambda>j. \<not> fgt (v4nth (eigenvalues decomposed) j)
                             (v4nth (eigenvalues decomposed) (Suc j)))
               [0, 1, 2])"

text \<open>
  Seven floating vertices, the origin and the six points at distance 1 on the axes,
  with weight 1 each. The corresponding positions are the floating ones turned by half
  a turn about the z axis and then moved by \<open>(1, 0, 0)\<close>. The first normal is
  \<open>(1, 0, 0)\<close>, the last one, \<open>(0, 0, 2)\<close>, is not of unit length.
\<close>

definition cross_floating :: "feature list" where
  "cross_floating =
     [(vfin (1, 0, 0), vfin (1, 0, 0)), (vfin (- 1, 0, 0), vfin (0, 0, 1)),
      (vfin (0, 1, 0), vfin (0, 0, 1)), (vfin (0, - 1, 0), vfin (0, 0, 1)),
      (vfin (0, 0, 1), vfin (0, 0, 1)), (vfin (0, 0, - 1), vfin (0, 0, 1)),
      (vfin (0, 0, 0), vfin (0, 0, 2))]"

definition cross_corresponding :: "feature list" where
  "cross_corresponding =
     [(vfin (0, 0, 0), vfin (0, 0, 1)), (vfin (2, 0, 0), vfin (0, 0, 1)),
      (vfin (1, - 1, 0), vfin (0, 0, 1)), (vfin (1, 1, 0), vfin (0, 0, 1)),
      (vfin (1, 0, 1), vfin (0, 0, 1)), (vfin (1, 0, - 1), vfin (0, 0, 1)),
      (vfin (1, 0, 0), vfin (0, 0, 1))]"

definition cross_weights :: "fl list" where
  "cross_weights = [Fin 1, Fin 1, Fin 1, Fin 1, Fin 1, Fin 1, Fin 1]"

text \<open>
  The matrix \<open>Q\<close> of that input is diagonal; its decomposition has the eigenvalues
  \<open>-2/7\<close> (three times) and \<open>6/7\<close>, and the unit vectors as eigenvectors.
\<close>

definition cross_Q :: mat4 where
  "cross_Q =
     ((Fin (- (2 / 7)), Fin 0, Fin 0, Fin 0),
      (Fin 0, Fin (- (2 / 7)), Fin 0, Fin 0),
      (Fin 0, Fin 0, Fin (- (2 / 7)), Fin 0),
      (Fin 0, Fin 0, Fin 0, Fin (6 / 7)))"

definition cross_decomposition :: eigen_result where
  "cross_decomposition =
     \<lparr>info_success = True,
      eigenvalues = (Fin (- (2 / 7)), Fin (- (2 / 7)), Fin (- (2 / 7)), Fin (6 / 7)),
      eigenvectors =
        ((Fin 1, Fin 0, Fin 0, Fin 0),
         (Fin 0, Fin 1, Fin 0, Fin 0),
         (Fin 0, Fin 0, Fin 1, Fin 0),
         (Fin 0, Fin 0, Fin 0, Fin 1))\<rparr>"

text \<open>The half turn about the z axis.\<close>

definition half_turn_z :: mat3 where
  "half_turn_z = ((Fin (- 1), Fin 0, Fin 0), (Fin 0, Fin (- 1), Fin 0), (Fin 0, Fin 0, Fin 1))"

text \<open>What \<open>rigid_transformation\<close> returns for that input.\<close>

definition cross_moved :: "feature list" where
  "cross_moved =
     [(vfin (- 2, 0, 0), vfin (1, 0, 0)), (vfin (0, 0, 0), vfin (0, 0, 1)),
      (vfin (- 1, - 1, 0), vfin (0, 0, 1)), (vfin (- 1, 1, 0), vfin (0, 0, 1)),
      (vfin (- 1, 0, 1), vfin (0, 0, 1)), (vfin (- 1, 0, - 1), vfin (0, 0, 1)),
      (vfin (- 1, 0, 0), vfin (0, 0, 2))]"

text \<open>What steps 1 to 9 compute for that input.\<close>

definition cross_estimate :: rigid_estimate where
  "cross_estimate =
     \<lparr>est_diags = [],
      est_floatingPositions = map fst cross_floating,
      est_floatingCentroid = vfin (0, 0, 0),
      est_correspondingCentroid = vfin (1, 0, 0),
      est_Q = cross_Q,
      est_rotMatTemp = half_turn_z,
      est_scaleFactor = Fin 1,
      est_translation = vfin (1, 0, 0)\<rparr>"

text \<open>
  The update of the positions that the specification describes,
  \<open>f \<leftarrow> s R f + t\<close>, for a given scale factor, rotation and translation.
\<close>

definition similarity_update :: "fl \<Rightarrow> mat3 \<Rightarrow> vec3 \<Rightarrow> vec3 \<Rightarrow> vec3" where
  "similarity_update s R t f = vadd (m3vec (m3scale s R) f) t"

text \<open>
  Weights that are all zero, and a decomposition that reports a failure and holds no
  finite value.
\<close>

definition zero_weights :: "fl list" where
  "zero_weights = [Fin 0, Fin 0, Fin 0, Fin 0, Fin 0, Fin 0, Fin 0]"

definition failed_decomposition :: eigen_result where
  "failed_decomposition =
     \<lparr>info_success = False,
      eigenvalues = (NonFin, NonFin, NonFin, NonFin),
      eigenvectors =
        ((NonFin, NonFin, NonFin, NonFin),
         (NonFin, NonFin, NonFin, NonFin),
         (NonFin, NonFin, NonFin, NonFin),
         (NonFin, NonFin, NonFin, NonFin))\<rparr>"

text \<open>Matrices of finite coefficients, by rows, and their product with a vector.\<close>

type_synonym rmat3 = "rvec \<times> rvec \<times> rvec"

definition m3fin :: "rmat3 \<Rightarrow> mat3" where
  "m3fin R = (case R of (a, b, c) \<Rightarrow> (vfin a, vfin b, vfin c))"

fun rm3vec :: "rmat3 \<Rightarrow> rvec \<Rightarrow> rvec" where
  "rm3vec (a, b, c) v = (rdot a v, rdot b v, rdot c v)"
section \<open>Basic facts\<close>

lemma ebind_simps [simp]:
  "ebind (Inr x) f = f x"
  "ebind (Inl e) f = Inl e"
  by (simp_all add: ebind_def)

lemma for_loop_append:
  "for_loop (xs @ ys) body s = ebind (for_loop xs body s) (for_loop ys body)"
proof (induction xs arbitrary: s)
  case Nil
  show ?case by simp
next
  case (Cons i xs)
  show ?case
    by (cases "body i s") (simp_all add: Cons.IH)
qed

lemma for_loop_upt_Suc:
  "for_loop [0..<Suc n] body s = ebind (for_loop [0..<n] body s) (body n)"
proof -
  have "for_loop [0..<Suc n] body s = for_loop ([0..<n] @ [n]) body s"
    by simp
  also have "\<dots> = ebind (for_loop [0..<n] body s) (for_loop [n] body)"
    by (rule for_loop_append)
  also have "for_loop [n] body = body n"
  proof
    fix t show "for_loop [n] body t = body n t"
      by (cases "body n t") simp_all
  qed
  finally show ?thesis .
qed

lemma vector_block_average_loop:
  assumes "n \<le> length vs" "length ws = length vs"
  shows "for_loop [0..<n]
           (\<lambda>i (outVector, sumWeights).
              ebind (read_at (map Fin ws) i) (\<lambda>w.
                Inr (vadd outVector (map vfin vs ! i), fadd sumWeights w)))
           (vzero, Fin 0)
         = Inr (vfin (rsum (take n vs)), Fin (sum_list (take n ws)))"
  using assms
proof (induction n)
  case 0
  show ?case by (simp add: vzero_def vfin_def rsum_def)
next
  case (Suc n)
  define body where "body = (\<lambda>i (outVector, sumWeights).
              ebind (read_at (map Fin ws) i) (\<lambda>w.
                Inr (vadd outVector (map vfin vs ! i), fadd sumWeights w)))"
  from Suc have n: "n < length vs" "n < length ws" by simp_all
  from Suc have IH: "for_loop [0..<n] body (vzero, Fin 0)
      = Inr (vfin (rsum (take n vs)), Fin (sum_list (take n ws)))"
    by (simp add: body_def)
  obtain x y z where v: "vs ! n = (x, y, z)" by (cases "vs ! n")
  have tv: "take (Suc n) vs = take n vs @ [(x, y, z)]"
    using n v by (simp add: take_Suc_conv_app_nth)
  have tw: "take (Suc n) ws = take n ws @ [ws ! n]"
    using n by (simp add: take_Suc_conv_app_nth)
  have step: "body n (vfin (rsum (take n vs)), Fin (sum_list (take n ws)))
      = Inr (vfin (rsum (take (Suc n) vs)), Fin (sum_list (take (Suc n) ws)))"
    using n v by (simp add: body_def read_at_def vfin_def rsum_def tv tw)
  have "for_loop [0..<Suc n] body (vzero, Fin 0)
      = Inr (vfin (rsum (take (Suc n) vs)), Fin (sum_list (take (Suc n) ws)))"
    by (simp only: for_loop_upt_Suc IH ebind_simps step)
  then show ?case by (simp only: body_def)
qed

lemma vector_block_average_eq:
  assumes "length ws = length vs"
  shows "vector_block_average (map vfin vs) (map Fin ws)
         = Inr (vdivs (vfin (rsum vs)) (Fin (sum_list ws)))"
  using vector_block_average_loop [of "length vs" vs ws] assms
  by (simp add: vector_block_average_def)


lemma rdivs_cancel:
  fixes a b c W n :: real
  assumes "W \<noteq> 0" "n \<noteq> 0" "(a, b, c) \<noteq> (0, 0, 0)"
    and "rdivs (a, b, c) W = rdivs (a, b, c) n"
  shows "W = n"
proof -
  from assms(3) consider "a \<noteq> 0" | "b \<noteq> 0" | "c \<noteq> 0" by auto
  then show ?thesis
  proof cases
    case 1
    from assms(4) have "a / W = a / n" by simp
    then have "a * n = a * W" using assms(1,2) by (auto simp add: frac_eq_eq)
    with 1 show ?thesis by simp
  next
    case 2
    from assms(4) have "b / W = b / n" by simp
    then have "b * n = b * W" using assms(1,2) by (auto simp add: frac_eq_eq)
    with 2 show ?thesis by simp
  next
    case 3
    from assms(4) have "c / W = c / n" by simp
    then have "c * n = c * W" using assms(1,2) by (auto simp add: frac_eq_eq)
    with 3 show ?thesis by simp
  qed
qed

lemma vfin_inject: "vfin u = vfin v \<Longrightarrow> u = v"
  by (cases u; cases v) (simp add: vfin_def)

lemma foldl_fadd_Fin: "foldl fadd (Fin a) (map Fin xs) = Fin (a + sum_list xs)"
  by (induction xs arbitrary: a) (simp_all add: add.assoc)

lemma fsum_Fin: "fsum (map Fin xs) = Fin (sum_list xs)"
  by (simp add: fsum_def foldl_fadd_Fin)

lemma normalize_row_Fin:
  "sum_list xs \<noteq> 0 \<Longrightarrow> normalize_row (map Fin xs) = map (\<lambda>x. Fin (x / sum_list xs)) xs"
  by (simp add: normalize_row_def fsum_Fin)

lemma normalize_row_zero_sum:
  "sum_list xs = 0 \<Longrightarrow> normalize_row (map Fin xs) = map (\<lambda>x. NonFin) xs"
  by (simp add: normalize_row_def fsum_Fin)

lemma sum_list_divide: "sum_list (map (\<lambda>x. x / (c::real)) xs) = sum_list xs / c"
  by (induction xs) (simp_all add: add_divide_distrib)

lemma fsum_normalize_row:
  assumes "sum_list xs \<noteq> 0"
  shows "fsum (normalize_row (map Fin xs)) = Fin 1"
proof -
  have "normalize_row (map Fin xs) = map Fin (map (\<lambda>x. x / sum_list xs) xs)"
    using assms by (simp add: normalize_row_Fin)
  then show ?thesis
    using assms by (simp only: fsum_Fin sum_list_divide) simp
qed

lemma normalize_row_half:
  "normalize_row (map (fmul (Fin (1 / 2))) (map Fin xs)) = normalize_row (map Fin xs)"
proof -
  have h: "map (fmul (Fin (1 / 2))) (map Fin xs) = map Fin (map (\<lambda>x. 1 / 2 * x) xs)"
    by simp
  have s: "sum_list (map (\<lambda>x. 1 / 2 * x) xs) = 1 / 2 * sum_list xs"
    by (induction xs) (simp_all add: algebra_simps)
  have "map (\<lambda>x. fdiv x (Fin (1 / 2 * sum_list xs))) (map Fin (map (\<lambda>x. 1 / 2 * x) xs))
      = map (\<lambda>x. fdiv x (Fin (sum_list xs))) (map Fin xs)"
    by simp
  then have "normalize_row (map Fin (map (\<lambda>x. 1 / 2 * x) xs)) = normalize_row (map Fin xs)"
    by (simp only: normalize_row_def fsum_Fin s)
  then show ?thesis
    by (simp only: h)
qed

lemma map2_fadd_Fin: "map2 fadd (map Fin a) (map Fin b) = map Fin (map2 (+) a b)"
proof (induction a arbitrary: b)
  case Nil
  show ?case by simp
next
  case (Cons x a)
  show ?case
    by (cases b) (simp_all add: Cons.IH)
qed

lemma mat_add_transpose_fin:
  assumes "wf_rows n m R1" "wf_rows m n R2"
  shows "mat_add (fin_mat n m R1) (transpose_mat (fin_mat m n R2))
         = Inr (fin_mat n m (summed_rows R1 R2))"
proof -
  have len: "length R1 = n" using assms(1) by (simp add: wf_rows_def)
  have col: "map (\<lambda>r. r ! i) (map (map Fin) R2) = map Fin (map (\<lambda>r. r ! i) R2)" if "i < n" for i
    using assms(2) that by (auto simp: wf_rows_def list_all_iff)
  have "map2 (map2 fadd) (map (map Fin) R1)
          (map (\<lambda>j. map (\<lambda>r. r ! j) (map (map Fin) R2)) [0..<n])
        = map (map Fin) (summed_rows R1 R2)"
  proof (rule nth_equalityI)
    show "length (map2 (map2 fadd) (map (map Fin) R1)
          (map (\<lambda>j. map (\<lambda>r. r ! j) (map (map Fin) R2)) [0..<n]))
        = length (map (map Fin) (summed_rows R1 R2))"
      by (simp add: len summed_rows_def)
  next
    fix i
    assume "i < length (map2 (map2 fadd) (map (map Fin) R1)
          (map (\<lambda>j. map (\<lambda>r. r ! j) (map (map Fin) R2)) [0..<n]))"
    then have i: "i < n" by (simp add: len)
    have "map2 (map2 fadd) (map (map Fin) R1)
          (map (\<lambda>j. map (\<lambda>r. r ! j) (map (map Fin) R2)) [0..<n]) ! i
        = map2 fadd (map Fin (R1 ! i)) (map (\<lambda>r. r ! i) (map (map Fin) R2))"
      using i len by simp
    also have "\<dots> = map Fin (map2 (+) (R1 ! i) (map (\<lambda>r. r ! i) R2))"
      by (simp only: col [OF i] map2_fadd_Fin)
    also have "\<dots> = map (map Fin) (summed_rows R1 R2) ! i"
      using i len by (simp add: summed_rows_def)
    finally show "map2 (map2 fadd) (map (map Fin) R1)
          (map (\<lambda>j. map (\<lambda>r. r ! j) (map (map Fin) R2)) [0..<n]) ! i
        = map (map Fin) (summed_rows R1 R2) ! i" .
  qed
  then show ?thesis
    by (simp add: mat_add_def transpose_mat_def fin_mat_def)
qed

lemma wf_rows_summed:
  assumes "wf_rows n m R1" "wf_rows m n R2"
  shows "wf_rows n m (summed_rows R1 R2)"
  using assms by (auto simp: wf_rows_def summed_rows_def list_all_iff)

lemma normalize_fin_mat:
  assumes "list_all (\<lambda>r. sum_list r \<noteq> 0) S"
  shows "coeffs (normalize_sparse_matrix (fin_mat n m S))
         = map (\<lambda>r. map (\<lambda>x. Fin (x / sum_list r)) r) S"
  using assms
  by (simp add: normalize_sparse_matrix_def fin_mat_def list_all_iff normalize_row_Fin)

lemma row_stochastic_normalize:
  assumes "wf_rows n m S" "list_all (\<lambda>r. sum_list r \<noteq> 0) S"
  shows "row_stochastic (normalize_sparse_matrix (fin_mat n m S))"
proof -
  have "fsum (normalize_row (map Fin r)) = Fin 1" if "r \<in> set S" for r
    using assms(2) that by (simp add: list_all_iff fsum_normalize_row)
  moreover have "length (normalize_row r) = length r" for r
    by (simp add: normalize_row_def)
  ultimately show ?thesis
    using assms(1)
    by (simp add: row_stochastic_def wf_mat_def normalize_sparse_matrix_def fin_mat_def
        wf_rows_def list_all_iff)
qed

lemma normalize_scale_half:
  "normalize_sparse_matrix (mat_scale (Fin (1 / 2)) (fin_mat n m S))
   = normalize_sparse_matrix (fin_mat n m S)"
proof -
  have "map normalize_row (map (map (fmul (Fin (1 / 2)))) (map (map Fin) S))
      = map normalize_row (map (map Fin) S)"
    by (induction S) (simp_all add: normalize_row_half del: map_map)
  then show ?thesis
    by (simp add: normalize_sparse_matrix_def mat_scale_def fin_mat_def del: map_map)
qed

lemma summed_rows_nonneg:
  assumes "wf_rows n m R1" "wf_rows m n R2"
    and "list_all (list_all (\<lambda>x. 0 \<le> x)) R1" "list_all (list_all (\<lambda>x. 0 \<le> x)) R2"
  shows "list_all (list_all (\<lambda>x. 0 \<le> x)) (summed_rows R1 R2)"
proof -
  have "0 \<le> a + b"
    if "i < length R1" "(a, b) \<in> set (zip (R1 ! i) (map (\<lambda>r. r ! i) R2))" for i a b
  proof -
    from that(2) have a: "a \<in> set (R1 ! i)" and b: "b \<in> set (map (\<lambda>r. r ! i) R2)"
      by (auto dest: set_zip_leftD set_zip_rightD)
    from a that(1) assms(3) have "0 \<le> a"
      by (auto simp: list_all_iff)
    moreover from b obtain r where r: "r \<in> set R2" "b = r ! i" by auto
    with that(1) assms(1,2,4) have "0 \<le> b"
      by (auto simp: list_all_iff wf_rows_def)
    ultimately show ?thesis by simp
  qed
  then show ?thesis
    by (auto simp: summed_rows_def list_all_iff)
qed

lemma nonneg_nonzero_sum:
  fixes r :: "real list"
  assumes "list_all (\<lambda>x. 0 \<le> x) r" "list_ex (\<lambda>x. x \<noteq> 0) r"
  shows "sum_list r \<noteq> 0"
  using assms sum_list_nonneg_eq_0_iff [of r]
  by (auto simp: list_all_iff list_ex_iff)

lemma flag_rounding_loop:
  assumes "n \<le> length fs"
  shows "for_loop [0..<n]
           (\<lambda>i outCorrespondingFlags.
              ebind (read_at outCorrespondingFlags i) (\<lambda>flag.
                if fgt flag limit
                then write_at outCorrespondingFlags i (Fin 1)
                else write_at outCorrespondingFlags i (Fin 0)))
           fs
         = Inr (map (round_flag limit) (take n fs) @ drop n fs)"
  using assms
proof (induction n)
  case 0
  show ?case by simp
next
  case (Suc n)
  define body where "body = (\<lambda>i outCorrespondingFlags.
              ebind (read_at outCorrespondingFlags i) (\<lambda>flag.
                if fgt flag limit
                then write_at outCorrespondingFlags i (Fin 1)
                else write_at outCorrespondingFlags i (Fin 0)))"
  from Suc have n: "n < length fs" by simp
  from Suc have IH: "for_loop [0..<n] body fs
      = Inr (map (round_flag limit) (take n fs) @ drop n fs)"
    by (simp add: body_def)
  have nth: "(map (round_flag limit) (take n fs) @ drop n fs) ! n = fs ! n"
    using n by (simp add: nth_append)
  have upd: "(map (round_flag limit) (take n fs) @ drop n fs)[n := v]
      = map (round_flag limit) (take n fs) @ v # drop (Suc n) fs" for v
    using n by (simp add: list_update_append Cons_nth_drop_Suc [symmetric])
  have step: "body n (map (round_flag limit) (take n fs) @ drop n fs)
      = Inr (map (round_flag limit) (take (Suc n) fs) @ drop (Suc n) fs)"
    using n
    by (simp add: body_def read_at_def write_at_def nth upd round_flag_def
        take_Suc_conv_app_nth)
  have "for_loop [0..<Suc n] body fs
      = Inr (map (round_flag limit) (take (Suc n) fs) @ drop (Suc n) fs)"
    by (simp only: for_loop_upt_Suc IH ebind_simps step)
  then show ?case by (simp only: body_def)
qed

lemma affinity_to_correspondences_flags:
  assumes "cols A = length F" "length fl = length F" "length F \<le> length (coeffs A)"
  shows "\<exists>feats. affinity_to_correspondences F fl A limit
     = Inr (feats, map (round_flag limit) (take (length F) (map (\<lambda>r. fsum (map2 fmul r fl)) (coeffs A)))
              @ drop (length F) (map (\<lambda>r. fsum (map2 fmul r fl)) (coeffs A)))"
  using assms
  by (simp add: affinity_to_correspondences_def mat_times_features_def mat_times_vec_def
      flag_rounding_loop)

lemma fl_absorb [simp]:
  "fadd x NonFin = NonFin" "fadd NonFin x = NonFin"
  "fsub x NonFin = NonFin" "fsub NonFin x = NonFin"
  "fmul x NonFin = NonFin" "fmul NonFin x = NonFin"
  "fdiv x NonFin = NonFin" "fdiv NonFin x = NonFin"
  "fdiv x (Fin 0) = NonFin"
  by (cases x; simp)+






lemma vdivs_zero: "vdivs v (Fin 0) = vnonfin"
  by (cases v) (simp add: vnonfin_def)




lemma sum_list_all_zero: "\<forall>x \<in> set xs. x = (0::real) \<Longrightarrow> sum_list xs = 0"
  by (induction xs) simp_all



lemma combined_weights_zero:
  assumes "\<forall>w \<in> set ws. w = 0"
  shows "sum_list (combined_weights sigma q ps ws) = 0"
proof -
  have "\<forall>c \<in> set (combined_weights sigma q ps ws). c = 0"
    using assms
    by (auto simp: combined_weights_def combined_weight_def float_underflow_def
        dest: set_zip_rightD)
  then show ?thesis
    by (rule sum_list_all_zero)
qed

lemma displace_loop:
  fixes P :: "feature list"
  assumes "n \<le> length P"
  shows "for_loop [0..<n]
           (\<lambda>i ioFloatingPositions.
              ebind (read_at U i) (\<lambda>d.
                Inr (ioFloatingPositions
                       [i := (vadd (fst (ioFloatingPositions ! i)) d,
                              snd (ioFloatingPositions ! i))])))
           P
         = (if n \<le> length U
            then Inr (map2 (\<lambda>f d. (vadd (fst f) d, snd f)) (take n P) (take n U) @ drop n P)
            else Inl IndexOutOfRange)"
  using assms
proof (induction n)
  case 0
  show ?case by simp
next
  case (Suc n)
  define body where "body = (\<lambda>i (ioFloatingPositions :: feature list).
              ebind (read_at U i) (\<lambda>d.
                Inr (ioFloatingPositions
                       [i := (vadd (fst (ioFloatingPositions ! i)) d,
                              snd (ioFloatingPositions ! i))])))"
  define moved where
    "moved k = map2 (\<lambda>f d. (vadd (fst f) d, snd f)) (take k P) (take k U) @ drop k P" for k
  from Suc have n: "n < length P" by simp
  from Suc have IH: "for_loop [0..<n] body P
      = (if n \<le> length U then Inr (moved n) else Inl IndexOutOfRange)"
    by (simp add: body_def moved_def)
  show ?case
  proof (cases "n < length U")
    case True
    have len: "length (map2 (\<lambda>f d. (vadd (fst f) d, snd f)) (take n P) (take n U)) = n"
      using n True by simp
    have nth: "moved n ! n = P ! n"
      using n len by (simp add: moved_def nth_append del: length_map length_zip)
    have upd: "(moved n)[n := v] = map2 (\<lambda>f d. (vadd (fst f) d, snd f)) (take n P) (take n U)
        @ v # drop (Suc n) P" for v
      using n len
      by (simp add: moved_def list_update_append Cons_nth_drop_Suc [symmetric]
          del: length_map length_zip)
    have step: "body n (moved n) = Inr (moved (Suc n))"
      using n True
      by (simp add: body_def read_at_def nth upd)
         (simp add: moved_def take_Suc_conv_app_nth)
    have "for_loop [0..<Suc n] body P = Inr (moved (Suc n))"
      using True by (simp only: for_loop_upt_Suc IH) (simp add: step)
    then show ?thesis
      using True by (simp add: body_def moved_def)
  next
    case False
    have "for_loop [0..<Suc n] body P = Inl IndexOutOfRange"
      using False
      by (simp only: for_loop_upt_Suc IH) (simp add: body_def read_at_def)
    then show ?thesis
      using False by (simp add: body_def)
  qed
qed

lemma for_loop_last_iteration:
  assumes "for_loop [0..<Suc n] body s = Inr t"
  shows "\<exists>s'. body n s' = Inr t"
  using assms
  by (simp only: for_loop_upt_Suc) (cases "for_loop [0..<n] body s"; auto)


lemma viscoelastic_with_elastic_pass:
  assumes "viscoelastic_transformation knn P C W D k sigma V (Suc E) = Inr (P', D')"
  shows "length P' = length P \<and> length P \<le> length D'
       \<and> (\<forall>i < length P. P' ! i = (vadd (fst (P ! i)) (D' ! i), snd (P ! i)))"
proof -
  from assms obtain U0 D0 U where
    elastic: "for_loop [0..<Suc E]
               (\<lambda>i (unregulatedDisplacementField, ioDisplacementField).
                  ebind (gaussian_smoothing_vector_field knn unregulatedDisplacementField
                           (map fst P) W ioDisplacementField k sigma)
                    (\<lambda>ioDisplacementField. Inr (ioDisplacementField, ioDisplacementField)))
               (U0, D0) = Inr (U, D')"
    and displace: "for_loop [0..<length P]
               (\<lambda>i ioFloatingPositions.
                  ebind (read_at U i) (\<lambda>d.
                    Inr (ioFloatingPositions
                           [i := (vadd (fst (ioFloatingPositions ! i)) d,
                                  snd (ioFloatingPositions ! i))])))
               P = Inr P'"
    by (auto simp: viscoelastic_transformation_def Let_def ebind_def
        split: sum.splits prod.splits)
  from for_loop_last_iteration [OF elastic] obtain a b where
    "ebind (gaussian_smoothing_vector_field knn a (map fst P) W b k sigma)
       (\<lambda>ioDisplacementField. Inr (ioDisplacementField, ioDisplacementField)) = Inr (U, D')"
    by auto
  then have U: "U = D'"
    by (cases "gaussian_smoothing_vector_field knn a (map fst P) W b k sigma") auto
  from displace have len: "length P \<le> length U"
    and P': "P' = map2 (\<lambda>f d. (vadd (fst f) d, snd f)) P (take (length P) U)"
    by (simp_all add: displace_loop split: if_splits)
  from len P' U show ?thesis by simp
qed

lemma cross_decomposition_is_eigen:
  "is_eigen_decomposition cross_Q cross_decomposition"
  by (simp add: is_eigen_decomposition_def cross_Q_def cross_decomposition_def)

lemma cross_estimation:
  "rigid_estimation (constant_solver cross_decomposition) cross_floating cross_corresponding
     cross_weights False
   = Inr \<lparr>est_diags = [],
          est_floatingPositions = map fst cross_floating,
          est_floatingCentroid = vfin (0, 0, 0),
          est_correspondingCentroid = vfin (1, 0, 0),
          est_Q = cross_Q,
          est_rotMatTemp = half_turn_z,
          est_scaleFactor = Fin 1,
          est_translation = vfin (1, 0, 0)\<rparr>"
  by (simp add: rigid_estimation_def rigid_centroids_def rigid_cross_variance_def
      rigid_Q_def rigid_scale_def select_rotation_quaternion_def constant_solver_def
      cross_decomposition_def cross_floating_def cross_corresponding_def cross_weights_def
      cross_Q_def half_turn_z_def NUM_FEATURES_def Let_def read_at_def
      m3zero_def m3identity_def vfin_def vzero_def)


lemma for_loop_invariant:
  assumes "for_loop ks body s = Inr t" "I s"
    and "\<And>i u v. I u \<Longrightarrow> body i u = Inr v \<Longrightarrow> I v"
  shows "I t"
  using assms(1,2)
proof (induction ks arbitrary: s)
  case Nil
  then show ?case by simp
next
  case (Cons i ks)
  from Cons.prems(1) obtain u where u: "body i s = Inr u" "for_loop ks body u = Inr t"
    by (cases "body i s") simp_all
  from assms(3) [OF Cons.prems(2) u(1)] have "I u" .
  with Cons.IH u(2) show ?case by blast
qed

lemma for_loop_total:
  assumes "I s"
    and "\<And>i u. i \<in> set ks \<Longrightarrow> I u \<Longrightarrow> \<exists>v. body i u = Inr v \<and> I v"
  shows "\<exists>t. for_loop ks body s = Inr t \<and> I t"
  using assms
proof (induction ks arbitrary: s)
  case Nil
  then show ?case by simp
next
  case (Cons i ks)
  from Cons.prems(2) [of i s] Cons.prems(1) obtain u where u: "body i s = Inr u" "I u"
    by auto
  have "\<exists>t. for_loop ks body u = Inr t \<and> I t"
  proof (rule Cons.IH [OF u(2)])
    fix j w
    assume "j \<in> set ks" "I w"
    then show "\<exists>v. body j w = Inr v \<and> I v"
      using Cons.prems(2) [of j w] by simp
  qed
  with u(1) show ?case by simp
qed

lemma rigid_apply_normals:
  assumes "rigid_apply M fp F = Inr (p4, F')"
  shows "map snd F' = map snd F"
proof -
  have "map snd (snd (p4, F')) = map snd F"
  proof (rule for_loop_invariant [where I = "\<lambda>st. map snd (snd st) = map snd F"])
    show "for_loop [0..<length F]
       (\<lambda>i (position4d, ioFeatures).
          ebind (read_at fp i) (\<lambda>f.
            let position4d = m4vec M (set_head3 position4d f)
            in Inr (position4d, ioFeatures[i := (head3 position4d, snd (ioFeatures ! i))])))
       ((Fin 1, Fin 1, Fin 1, Fin 1), F) = Inr (p4, F')"
      using assms by (simp add: rigid_apply_def)
  next
    show "map snd (snd ((Fin 1, Fin 1, Fin 1, Fin 1), F)) = map snd F"
      by simp
  next
    fix i and u v :: "vec4 \<times> feature list"
    assume inv: "map snd (snd u) = map snd F"
      and step: "(case u of (position4d, ioFeatures) \<Rightarrow>
          ebind (read_at fp i) (\<lambda>f.
            let position4d = m4vec M (set_head3 position4d f)
            in Inr (position4d, ioFeatures[i := (head3 position4d, snd (ioFeatures ! i))])))
        = Inr v"
    obtain q G where u: "u = (q, G)" by (cases u)
    from step u obtain f where "v = (m4vec M (set_head3 q f),
        G[i := (head3 (m4vec M (set_head3 q f)), snd (G ! i))])"
      by (cases "read_at fp i") (auto simp: Let_def)
    then have "map snd (snd v) = map snd G"
      by (cases "i < length G") (simp_all add: map_update list_update_same_conv list_update_beyond)
    with inv u show "map snd (snd v) = map snd F"
      by simp
  qed
  then show ?thesis by simp
qed

lemma normals_kept_by_rigid_transformation:
  assumes "rigid_transformation decomposer F C W scaling = Inr (diags, F')"
  shows "map snd F' = map snd F"
proof -
  from assms obtain M fp p4 where "rigid_apply M fp F = Inr (p4, F')"
    by (auto simp: rigid_transformation_def ebind_def split: sum.splits prod.splits)
  then show ?thesis by (rule rigid_apply_normals)
qed

lemma cross_apply:
  "rigid_apply (rigid_transformation_matrix (Fin 1) half_turn_z (vfin (1, 0, 0)))
     (map fst cross_floating) cross_floating
   = Inr ((Fin (- 1), Fin 0, Fin 0, Fin 1), cross_moved)"
  by (simp add: rigid_apply_def rigid_transformation_matrix_def v4m4_def
      cross_floating_def cross_moved_def half_turn_z_def Let_def read_at_def vfin_def)

lemma cross_transformation:
  "rigid_transformation (constant_solver cross_decomposition) cross_floating
     cross_corresponding cross_weights False
   = Inr ([], cross_moved)"
  by (simp add: rigid_transformation_def cross_estimation cross_apply)

lemma for_loop_succeeds:
  assumes "\<And>i u. i \<in> set ks \<Longrightarrow> \<exists>v. body i u = Inr v"
  shows "\<exists>t. for_loop ks body s = Inr t"
  using for_loop_total [where I = "\<lambda>_. True" and body = body and ks = ks and s = s] assms
  by auto

lemma rigid_centroids_zero_weights:
  assumes "n \<le> length fp" "n \<le> length cp" "n \<le> length W" "\<forall>w \<in> set W. w = Fin 0"
  shows "rigid_centroids n fp cp W = Inr (vnonfin, vnonfin, Fin 0)"
proof -
  have "\<exists>t. for_loop [0..<n]
              (\<lambda>i (floatingCentroid, correspondingCentroid, sumWeights).
                 ebind (read_at W i) (\<lambda>w.
                 ebind (read_at fp i) (\<lambda>f.
                 ebind (read_at cp i) (\<lambda>c.
                   Inr (vadd floatingCentroid (vscale w f),
                        vadd correspondingCentroid (vscale w c),
                        fadd sumWeights w)))))
              (vzero, vzero, Fin 0) = Inr t \<and> snd (snd t) = Fin 0"
  proof (rule for_loop_total [where I = "\<lambda>t. snd (snd t) = Fin 0"])
    show "snd (snd (vzero, vzero, Fin 0)) = Fin 0" by simp
  next
    fix i and u :: "vec3 \<times> vec3 \<times> fl"
    assume i: "i \<in> set [0..<n]" and inv: "snd (snd u) = Fin 0"
    obtain a b sw where u: "u = (a, b, sw)" by (cases u)
    from i assms have "W ! i = Fin 0" "i < length W" "i < length fp" "i < length cp"
      by simp_all
    with inv u show "\<exists>v. (case u of (floatingCentroid, correspondingCentroid, sumWeights) \<Rightarrow>
                 ebind (read_at W i) (\<lambda>w.
                 ebind (read_at fp i) (\<lambda>f.
                 ebind (read_at cp i) (\<lambda>c.
                   Inr (vadd floatingCentroid (vscale w f),
                        vadd correspondingCentroid (vscale w c),
                        fadd sumWeights w))))) = Inr v \<and> snd (snd v) = Fin 0"
      by (simp add: read_at_def)
  qed
  then obtain t where t: "for_loop [0..<n]
              (\<lambda>i (floatingCentroid, correspondingCentroid, sumWeights).
                 ebind (read_at W i) (\<lambda>w.
                 ebind (read_at fp i) (\<lambda>f.
                 ebind (read_at cp i) (\<lambda>c.
                   Inr (vadd floatingCentroid (vscale w f),
                        vadd correspondingCentroid (vscale w c),
                        fadd sumWeights w)))))
              (vzero, vzero, Fin 0) = Inr t" and sw: "snd (snd t) = Fin 0"
    by blast
  obtain a b where "t = (a, b, Fin 0)"
    using sw by (cases t) simp
  with t have "for_loop [0..<n]
              (\<lambda>i (floatingCentroid, correspondingCentroid, sumWeights).
                 ebind (read_at W i) (\<lambda>w.
                 ebind (read_at fp i) (\<lambda>f.
                 ebind (read_at cp i) (\<lambda>c.
                   Inr (vadd floatingCentroid (vscale w f),
                        vadd correspondingCentroid (vscale w c),
                        fadd sumWeights w)))))
              (vzero, vzero, Fin 0) = Inr (a, b, Fin 0)"
    by simp
  then show ?thesis
    by (simp add: rigid_centroids_def vdivs_zero)
qed

lemma rigid_cross_variance_returns:
  assumes "n \<le> length fp" "n \<le> length cp" "n \<le> length W"
  shows "\<exists>cv. rigid_cross_variance n fp cp W fc cc sw = Inr cv"
proof -
  have "\<exists>t. for_loop [0..<n]
              (\<lambda>i crossVarianceMatrix.
                 ebind (read_at W i) (\<lambda>w.
                 ebind (read_at fp i) (\<lambda>f.
                 ebind (read_at cp i) (\<lambda>c.
                   Inr (m3add crossVarianceMatrix (outer (vscale w f) c))))))
              m3zero = Inr t"
  proof (rule for_loop_succeeds)
    fix i and u :: mat3
    assume "i \<in> set [0..<n]"
    with assms show "\<exists>v. ebind (read_at W i) (\<lambda>w.
                 ebind (read_at fp i) (\<lambda>f.
                 ebind (read_at cp i) (\<lambda>c.
                   Inr (m3add u (outer (vscale w f) c))))) = Inr v"
      by (intro exI [of _ "m3add u (outer (vscale (W ! i) (fp ! i)) (cp ! i))"])
         (simp add: read_at_def)
  qed
  then obtain t where "for_loop [0..<n]
              (\<lambda>i crossVarianceMatrix.
                 ebind (read_at W i) (\<lambda>w.
                 ebind (read_at fp i) (\<lambda>f.
                 ebind (read_at cp i) (\<lambda>c.
                   Inr (m3add crossVarianceMatrix (outer (vscale w f) c))))))
              m3zero = Inr t" ..
  then show ?thesis
    by (simp add: rigid_cross_variance_def del: split_paired_Ex)
qed

lemma rigid_scale_returns:
  assumes "n \<le> length fp" "n \<le> length cp" "n \<le> length W"
  shows "\<exists>s. rigid_scale scaling n fp cp W fc cc R = Inr s"
proof (cases scaling)
  case False
  then show ?thesis by (simp add: rigid_scale_def)
next
  case True
  have "\<exists>t. for_loop [0..<n]
                    (\<lambda>i (numerator, denominator).
                       ebind (read_at fp i) (\<lambda>f.
                       ebind (read_at cp i) (\<lambda>c.
                       ebind (read_at W i) (\<lambda>w.
                         let newFloatingPos = m3vec R (vsub f fc);
                             newCorrespondingPos = vsub c cc
                         in Inr (fadd numerator (vdot (vscale w newCorrespondingPos) newFloatingPos),
                                 fadd denominator (vdot (vscale w newFloatingPos) newFloatingPos))))))
                    (Fin 0, Fin 0) = Inr t"
  proof (rule for_loop_succeeds)
    fix i and u :: "fl \<times> fl"
    assume "i \<in> set [0..<n]"
    with assms show "\<exists>v. (case u of (numerator, denominator) \<Rightarrow>
                       ebind (read_at fp i) (\<lambda>f.
                       ebind (read_at cp i) (\<lambda>c.
                       ebind (read_at W i) (\<lambda>w.
                         let newFloatingPos = m3vec R (vsub f fc);
                             newCorrespondingPos = vsub c cc
                         in Inr (fadd numerator (vdot (vscale w newCorrespondingPos) newFloatingPos),
                                 fadd denominator (vdot (vscale w newFloatingPos) newFloatingPos)))))) = Inr v"
      by (cases u) (simp add: read_at_def Let_def)
  qed
  then obtain t where "for_loop [0..<n]
                    (\<lambda>i (numerator, denominator).
                       ebind (read_at fp i) (\<lambda>f.
                       ebind (read_at cp i) (\<lambda>c.
                       ebind (read_at W i) (\<lambda>w.
                         let newFloatingPos = m3vec R (vsub f fc);
                             newCorrespondingPos = vsub c cc
                         in Inr (fadd numerator (vdot (vscale w newCorrespondingPos) newFloatingPos),
                                 fadd denominator (vdot (vscale w newFloatingPos) newFloatingPos))))))
                    (Fin 0, Fin 0) = Inr t" ..
  with True show ?thesis
    by (cases t) (simp add: rigid_scale_def)
qed

lemma vsub_nonfin [simp]: "vsub vnonfin v = vnonfin"
  by (cases v) (simp add: vnonfin_def)

lemma rigid_estimation_zero_weights_core:
  assumes len: "n \<le> length fp" "n \<le> length cp" "n \<le> length W"
    and zero: "\<forall>w \<in> set W. w = Fin 0"
  shows "\<exists>est.
      ebind (rigid_centroids n fp cp W)
        (\<lambda>(floatingCentroid, correspondingCentroid, sumWeights).
      ebind (rigid_cross_variance n fp cp W floatingCentroid correspondingCentroid sumWeights)
        (\<lambda>crossVarianceMatrix.
      ebind (rigid_scale scaling n fp cp W floatingCentroid correspondingCentroid
               (rotation_of_quaternion (select_rotation_quaternion
                  (decomposer (rigid_Q crossVarianceMatrix)))))
        (\<lambda>scaleFactor.
      Inr \<lparr>est_diags = d1 @ (if info_success (decomposer (rigid_Q crossVarianceMatrix))
                              then [] else [EigenDecompositionFailed]),
           est_floatingPositions = fp,
           est_floatingCentroid = floatingCentroid,
           est_correspondingCentroid = correspondingCentroid,
           est_Q = rigid_Q crossVarianceMatrix,
           est_rotMatTemp = rotation_of_quaternion (select_rotation_quaternion
                              (decomposer (rigid_Q crossVarianceMatrix))),
           est_scaleFactor = scaleFactor,
           est_translation =
             vsub correspondingCentroid
                  (m3vec (m3scale scaleFactor
                            (rotation_of_quaternion (select_rotation_quaternion
                               (decomposer (rigid_Q crossVarianceMatrix)))))
                         floatingCentroid)\<rparr>)))
      = Inr est \<and> est_translation est = vnonfin \<and> est_floatingPositions est = fp"
proof -
  have cen: "rigid_centroids n fp cp W = Inr (vnonfin, vnonfin, Fin 0)"
    by (rule rigid_centroids_zero_weights [OF len zero])
  obtain cv where cv: "rigid_cross_variance n fp cp W vnonfin vnonfin (Fin 0) = Inr cv"
    using rigid_cross_variance_returns [OF len] by blast
  obtain s where s: "rigid_scale scaling n fp cp W vnonfin vnonfin
      (rotation_of_quaternion (select_rotation_quaternion (decomposer (rigid_Q cv)))) = Inr s"
    using rigid_scale_returns [OF len] by blast
  show ?thesis
    by (simp add: cen cv s del: split_paired_Ex)
qed

lemma rigid_estimation_zero_weights:
  assumes "length C = length F" "length W = length F" "\<forall>w \<in> set W. w = Fin 0"
  shows "\<exists>est. rigid_estimation decomposer F C W scaling = Inr est
           \<and> est_translation est = vnonfin
           \<and> length F \<le> length (est_floatingPositions est)"
proof (cases "length F > NUM_FEATURES")
  case True
  have len: "length F \<le> length (map fst F)" "length F \<le> length (map fst C)"
      "length F \<le> length W"
    using assms by simp_all
  from rigid_estimation_zero_weights_core [OF len assms(3), of scaling decomposer "[]"]
  show ?thesis
    using True unfolding rigid_estimation_def Let_def by auto
next
  case False
  have len: "length F \<le> length (replicate (length F) vzero)"
      "length F \<le> length (replicate (length F) vzero)" "length F \<le> length W"
    using assms by simp_all
  from rigid_estimation_zero_weights_core [OF len assms(3), of scaling decomposer
      "[RowsNotElements]"]
  show ?thesis
    using False unfolding rigid_estimation_def Let_def by auto
qed

lemma head3_transformed_nonfin:
  "head3 (m4vec (rigid_transformation_matrix s R vnonfin) p) = vnonfin"
proof -
  obtain a00 a01 a02 a10 a11 a12 a20 a21 a22 where
    R: "m3scale s R = ((a00, a01, a02), (a10, a11, a12), (a20, a21, a22))"
    by (metis prod.exhaust)
  obtain x y z w where p: "p = (x, y, z, w)"
    by (metis prod.exhaust)
  show ?thesis
    by (simp add: rigid_transformation_matrix_def R p vnonfin_def v4m4_def)
qed

lemma rigid_apply_nonfin_loop:
  fixes F :: "feature list"
  assumes "n \<le> length F" "length F \<le> length fp"
  shows "\<exists>p4. for_loop [0..<n]
       (\<lambda>i (position4d, ioFeatures).
          ebind (read_at fp i) (\<lambda>f.
            let position4d = m4vec (rigid_transformation_matrix s R vnonfin)
                               (set_head3 position4d f)
            in Inr (position4d, ioFeatures[i := (head3 position4d, snd (ioFeatures ! i))])))
       (p0, F)
     = Inr (p4, map (\<lambda>f. (vnonfin, snd f)) (take n F) @ drop n F)"
  using assms(1)
proof (induction n)
  case 0
  show ?case by (intro exI [of _ p0]) simp
next
  case (Suc n)
  define body where "body = (\<lambda>i (position4d, ioFeatures :: feature list).
          ebind (read_at fp i) (\<lambda>f.
            let position4d = m4vec (rigid_transformation_matrix s R vnonfin)
                               (set_head3 position4d f)
            in Inr (position4d, ioFeatures[i := (head3 position4d, snd (ioFeatures ! i))])))"
  define moved where "moved k = map (\<lambda>f. (vnonfin, snd f)) (take k F) @ drop k F" for k
  from Suc assms(2) have n: "n < length F" "n < length fp" by simp_all
  from Suc obtain p4 where IH: "for_loop [0..<n] body (p0, F) = Inr (p4, moved n)"
    by (auto simp: body_def moved_def)
  have nth: "moved n ! n = F ! n"
    using n by (simp add: moved_def nth_append)
  have upd: "(moved n)[n := v] = map (\<lambda>f. (vnonfin, snd f)) (take n F) @ v # drop (Suc n) F" for v
    using n by (simp add: moved_def list_update_append Cons_nth_drop_Suc [symmetric])
  have step: "body n (p4, moved n)
      = Inr (m4vec (rigid_transformation_matrix s R vnonfin) (set_head3 p4 (fp ! n)),
             moved (Suc n))"
    using n
    by (simp add: body_def read_at_def Let_def head3_transformed_nonfin nth upd)
       (simp add: moved_def take_Suc_conv_app_nth)
  have "for_loop [0..<Suc n] body (p0, F)
      = Inr (m4vec (rigid_transformation_matrix s R vnonfin) (set_head3 p4 (fp ! n)),
             moved (Suc n))"
    by (simp only: for_loop_upt_Suc IH ebind_simps step)
  then show ?case
    by (simp only: body_def moved_def) blast
qed

lemma rigid_apply_nonfin:
  assumes "length F \<le> length fp"
  shows "\<exists>p4. rigid_apply (rigid_transformation_matrix s R vnonfin) fp F
           = Inr (p4, map (\<lambda>f. (vnonfin, snd f)) F)"
  using rigid_apply_nonfin_loop [of "length F" F fp s R] assms
  by (simp add: rigid_apply_def)

lemma zero_weights_rigid_result:
  assumes "length C = length F" "length W = length F" "\<forall>w \<in> set W. w = Fin 0"
  shows "\<exists>diags. rigid_transformation decomposer F C W scaling
           = Inr (diags, map (\<lambda>f. (vnonfin, snd f)) F)"
proof -
  from rigid_estimation_zero_weights [OF assms] obtain est where
    est: "rigid_estimation decomposer F C W scaling = Inr est"
      "est_translation est = vnonfin" "length F \<le> length (est_floatingPositions est)"
    by blast
  from rigid_apply_nonfin [OF est(3)] obtain p4 where
    "rigid_apply (rigid_transformation_matrix (est_scaleFactor est) (est_rotMatTemp est) vnonfin)
       (est_floatingPositions est) F = Inr (p4, map (\<lambda>f. (vnonfin, snd f)) F)"
    by blast
  then show ?thesis
    by (simp add: rigid_transformation_def est(1,2))
qed

lemma rigid_centroids_returns:
  assumes "n \<le> length fp" "n \<le> length cp" "n \<le> length W"
  shows "\<exists>t. rigid_centroids n fp cp W = Inr t"
proof -
  have "\<exists>t. for_loop [0..<n]
              (\<lambda>i (floatingCentroid, correspondingCentroid, sumWeights).
                 ebind (read_at W i) (\<lambda>w.
                 ebind (read_at fp i) (\<lambda>f.
                 ebind (read_at cp i) (\<lambda>c.
                   Inr (vadd floatingCentroid (vscale w f),
                        vadd correspondingCentroid (vscale w c),
                        fadd sumWeights w)))))
              (vzero, vzero, Fin 0) = Inr t"
  proof (rule for_loop_succeeds)
    fix i and u :: "vec3 \<times> vec3 \<times> fl"
    assume "i \<in> set [0..<n]"
    with assms show "\<exists>v. (case u of (floatingCentroid, correspondingCentroid, sumWeights) \<Rightarrow>
                 ebind (read_at W i) (\<lambda>w.
                 ebind (read_at fp i) (\<lambda>f.
                 ebind (read_at cp i) (\<lambda>c.
                   Inr (vadd floatingCentroid (vscale w f),
                        vadd correspondingCentroid (vscale w c),
                        fadd sumWeights w))))) = Inr v"
      by (cases u) (simp add: read_at_def del: split_paired_Ex)
  qed
  then obtain t where "for_loop [0..<n]
              (\<lambda>i (floatingCentroid, correspondingCentroid, sumWeights).
                 ebind (read_at W i) (\<lambda>w.
                 ebind (read_at fp i) (\<lambda>f.
                 ebind (read_at cp i) (\<lambda>c.
                   Inr (vadd floatingCentroid (vscale w f),
                        vadd correspondingCentroid (vscale w c),
                        fadd sumWeights w)))))
              (vzero, vzero, Fin 0) = Inr t" ..
  then show ?thesis
    by (cases t) (simp add: rigid_centroids_def del: split_paired_Ex)
qed

lemma rigid_estimation_core_returns:
  assumes len: "n \<le> length fp" "n \<le> length cp" "n \<le> length W"
  shows "\<exists>est.
      ebind (rigid_centroids n fp cp W)
        (\<lambda>(floatingCentroid, correspondingCentroid, sumWeights).
      ebind (rigid_cross_variance n fp cp W floatingCentroid correspondingCentroid sumWeights)
        (\<lambda>crossVarianceMatrix.
      ebind (rigid_scale scaling n fp cp W floatingCentroid correspondingCentroid
               (rotation_of_quaternion (select_rotation_quaternion
                  (decomposer (rigid_Q crossVarianceMatrix)))))
        (\<lambda>scaleFactor.
      Inr \<lparr>est_diags = d1 @ (if info_success (decomposer (rigid_Q crossVarianceMatrix))
                              then [] else [EigenDecompositionFailed]),
           est_floatingPositions = fp,
           est_floatingCentroid = floatingCentroid,
           est_correspondingCentroid = correspondingCentroid,
           est_Q = rigid_Q crossVarianceMatrix,
           est_rotMatTemp = rotation_of_quaternion (select_rotation_quaternion
                              (decomposer (rigid_Q crossVarianceMatrix))),
           est_scaleFactor = scaleFactor,
           est_translation =
             vsub correspondingCentroid
                  (m3vec (m3scale scaleFactor
                            (rotation_of_quaternion (select_rotation_quaternion
                               (decomposer (rigid_Q crossVarianceMatrix)))))
                         floatingCentroid)\<rparr>)))
      = Inr est \<and> est_floatingPositions est = fp"
proof -
  obtain t where "rigid_centroids n fp cp W = Inr t"
    using rigid_centroids_returns [OF len] by blast
  then obtain fc cc sw where cen: "rigid_centroids n fp cp W = Inr (fc, cc, sw)"
    by (cases t) simp
  obtain cv where cv: "rigid_cross_variance n fp cp W fc cc sw = Inr cv"
    using rigid_cross_variance_returns [OF len] by blast
  obtain s where s: "rigid_scale scaling n fp cp W fc cc
      (rotation_of_quaternion (select_rotation_quaternion (decomposer (rigid_Q cv)))) = Inr s"
    using rigid_scale_returns [OF len] by blast
  show ?thesis
    by (simp add: cen cv s del: split_paired_Ex)
qed

lemma rigid_estimation_returns:
  assumes "length C = length F" "length W = length F"
  shows "\<exists>est. rigid_estimation decomposer F C W scaling = Inr est
           \<and> length F \<le> length (est_floatingPositions est)"
proof (cases "length F > NUM_FEATURES")
  case True
  have len: "length F \<le> length (map fst F)" "length F \<le> length (map fst C)"
      "length F \<le> length W"
    using assms by simp_all
  from rigid_estimation_core_returns [OF len, of scaling decomposer "[]"]
  show ?thesis
    using True unfolding rigid_estimation_def Let_def by auto
next
  case False
  have len: "length F \<le> length (replicate (length F) vzero)"
      "length F \<le> length (replicate (length F) vzero)" "length F \<le> length W"
    using assms by simp_all
  from rigid_estimation_core_returns [OF len, of scaling decomposer "[RowsNotElements]"]
  show ?thesis
    using False unfolding rigid_estimation_def Let_def by auto
qed

lemma rigid_apply_returns:
  assumes "length F \<le> length fp"
  shows "\<exists>p4 F'. rigid_apply M fp F = Inr (p4, F')"
proof -
  have "\<exists>t. for_loop [0..<length F]
       (\<lambda>i (position4d, ioFeatures).
          ebind (read_at fp i) (\<lambda>f.
            let position4d = m4vec M (set_head3 position4d f)
            in Inr (position4d, ioFeatures[i := (head3 position4d, snd (ioFeatures ! i))])))
       ((Fin 1, Fin 1, Fin 1, Fin 1), F) = Inr t"
  proof (rule for_loop_succeeds)
    fix i and u :: "vec4 \<times> feature list"
    assume "i \<in> set [0..<length F]"
    with assms show "\<exists>v. (case u of (position4d, ioFeatures) \<Rightarrow>
          ebind (read_at fp i) (\<lambda>f.
            let position4d = m4vec M (set_head3 position4d f)
            in Inr (position4d, ioFeatures[i := (head3 position4d, snd (ioFeatures ! i))])))
          = Inr v"
      by (cases u) (simp add: read_at_def Let_def del: split_paired_Ex)
  qed
  then obtain t where "for_loop [0..<length F]
       (\<lambda>i (position4d, ioFeatures).
          ebind (read_at fp i) (\<lambda>f.
            let position4d = m4vec M (set_head3 position4d f)
            in Inr (position4d, ioFeatures[i := (head3 position4d, snd (ioFeatures ! i))])))
       ((Fin 1, Fin 1, Fin 1, Fin 1), F) = Inr t" ..
  then show ?thesis
    by (cases t) (simp add: rigid_apply_def del: split_paired_Ex)
qed

lemma rigid_transformation_returns:
  assumes "length C = length F" "length W = length F"
  shows "\<exists>diags F'. rigid_transformation decomposer F C W scaling = Inr (diags, F')"
proof -
  from rigid_estimation_returns [OF assms] obtain est where
    est: "rigid_estimation decomposer F C W scaling = Inr est"
      "length F \<le> length (est_floatingPositions est)"
    by blast
  from rigid_apply_returns [OF est(2)] obtain p4 F' where
    "rigid_apply (rigid_transformation_matrix (est_scaleFactor est) (est_rotMatTemp est)
       (est_translation est)) (est_floatingPositions est) F = Inr (p4, F')"
    by blast
  then show ?thesis
    by (simp add: rigid_transformation_def est(1))
qed

lemma transformed_finite:
  "m4vec (rigid_transformation_matrix (Fin s) (m3fin R) (vfin t))
         (set_head3 (a, b, c, Fin 1) (vfin f))
   = (case vfin (rscale s (rm3vec R (radd f t))) of (x, y, z) \<Rightarrow> (x, y, z, Fin 1))"
proof -
  obtain r00 r01 r02 r10 r11 r12 r20 r21 r22 where
    R: "R = ((r00, r01, r02), (r10, r11, r12), (r20, r21, r22))"
    by (metis prod.exhaust)
  obtain tx ty tz where t: "t = (tx, ty, tz)" by (metis prod.exhaust)
  obtain fx fy fz where f: "f = (fx, fy, fz)" by (metis prod.exhaust)
  show ?thesis
    by (simp add: rigid_transformation_matrix_def R t f m3fin_def vfin_def v4m4_def
        algebra_simps)
qed

lemma rigid_apply_finite_loop:
  fixes F :: "feature list"
  assumes "n \<le> length F" "length ps = length F"
  shows "\<exists>a b c. for_loop [0..<n]
       (\<lambda>i (position4d, ioFeatures).
          ebind (read_at (map vfin ps) i) (\<lambda>f.
            let position4d = m4vec (rigid_transformation_matrix (Fin s) (m3fin R) (vfin t))
                               (set_head3 position4d f)
            in Inr (position4d, ioFeatures[i := (head3 position4d, snd (ioFeatures ! i))])))
       ((Fin 1, Fin 1, Fin 1, Fin 1), F)
     = Inr ((a, b, c, Fin 1),
            map2 (\<lambda>p f. (vfin (rscale s (rm3vec R (radd p t))), snd f)) (take n ps) (take n F)
            @ drop n F)"
  using assms(1)
proof (induction n)
  case 0
  show ?case by simp
next
  case (Suc n)
  define body where "body = (\<lambda>i (position4d, ioFeatures :: feature list).
          ebind (read_at (map vfin ps) i) (\<lambda>f.
            let position4d = m4vec (rigid_transformation_matrix (Fin s) (m3fin R) (vfin t))
                               (set_head3 position4d f)
            in Inr (position4d, ioFeatures[i := (head3 position4d, snd (ioFeatures ! i))])))"
  define moved where "moved k =
      map2 (\<lambda>p f. (vfin (rscale s (rm3vec R (radd p t))), snd f)) (take k ps) (take k F)
      @ drop k F" for k
  from Suc assms(2) have n: "n < length F" "n < length ps" by simp_all
  from Suc obtain a b c where
    IH: "for_loop [0..<n] body ((Fin 1, Fin 1, Fin 1, Fin 1), F) = Inr ((a, b, c, Fin 1), moved n)"
    by (auto simp: body_def moved_def)
  have len: "length (map2 (\<lambda>p f. (vfin (rscale s (rm3vec R (radd p t))), snd f))
      (take n ps) (take n F)) = n"
    using n by simp
  have nth: "moved n ! n = F ! n"
    using n len by (simp add: moved_def nth_append del: length_map length_zip)
  have upd: "(moved n)[n := v]
      = map2 (\<lambda>p f. (vfin (rscale s (rm3vec R (radd p t))), snd f)) (take n ps) (take n F)
        @ v # drop (Suc n) F" for v
    using n len
    by (simp add: moved_def list_update_append Cons_nth_drop_Suc [symmetric]
        del: length_map length_zip)
  obtain x y z where xyz: "vfin (rscale s (rm3vec R (radd (ps ! n) t))) = (x, y, z)"
    by (metis prod.exhaust)
  have step: "body n ((a, b, c, Fin 1), moved n) = Inr ((x, y, z, Fin 1), moved (Suc n))"
    using n
    by (simp add: body_def read_at_def Let_def transformed_finite xyz nth upd)
       (simp add: moved_def take_Suc_conv_app_nth xyz)
  have "for_loop [0..<Suc n] body ((Fin 1, Fin 1, Fin 1, Fin 1), F)
      = Inr ((x, y, z, Fin 1), moved (Suc n))"
    by (simp only: for_loop_upt_Suc IH ebind_simps step)
  then show ?case
    by (simp only: body_def moved_def) blast
qed

lemma rigid_apply_finite:
  assumes "length ps = length F"
  shows "\<exists>p4. rigid_apply (rigid_transformation_matrix (Fin s) (m3fin R) (vfin t))
                 (map vfin ps) F
           = Inr (p4, map2 (\<lambda>p f. (vfin (rscale s (rm3vec R (radd p t))), snd f)) ps F)"
  using rigid_apply_finite_loop [of "length F" F ps s R t] assms
  by (auto simp: rigid_apply_def)














lemma float_underflow_one: "float_underflow 1 = 1"
  by (simp add: float_underflow_def)
section \<open>Claims about vector_block_average\<close>

text \<open>
  C10 (as amended). For a non-empty list of finite vectors and finite weights of the
  same length whose sum is not zero, \<open>vector_block_average\<close> returns the unweighted
  sum of the vectors divided by the sum of the weights. It equals the uniform average
  of the vectors whenever the weights sum to the number of vectors and, provided the
  sum of the vectors is not the zero vector, only then.
\<close>

theorem vector_block_average_unweighted_sum:
  assumes "vs \<noteq> []" "length ws = length vs" "sum_list ws \<noteq> 0"
  shows "vector_block_average (map vfin vs) (map Fin ws)
           = Inr (vfin (rdivs (rsum vs) (sum_list ws)))
       \<and> (sum_list ws = real (length vs) \<longrightarrow>
            vector_block_average (map vfin vs) (map Fin ws) = Inr (vfin (uniform_average vs)))
       \<and> (rsum vs \<noteq> (0, 0, 0) \<and>
            vector_block_average (map vfin vs) (map Fin ws) = Inr (vfin (uniform_average vs))
            \<longrightarrow> sum_list ws = real (length vs))"
proof -
  obtain a b c where S: "rsum vs = (a, b, c)" by (cases "rsum vs")
  have n: "real (length vs) \<noteq> 0" using assms(1) by simp
  have val: "vector_block_average (map vfin vs) (map Fin ws)
           = Inr (vfin (rdivs (rsum vs) (sum_list ws)))"
    using assms(3) by (simp add: vector_block_average_eq [OF assms(2)] S vfin_def)
  show ?thesis
  proof (intro conjI impI)
    show "vector_block_average (map vfin vs) (map Fin ws)
           = Inr (vfin (rdivs (rsum vs) (sum_list ws)))"
      by (rule val)
  next
    assume "sum_list ws = real (length vs)"
    then show "vector_block_average (map vfin vs) (map Fin ws)
        = Inr (vfin (uniform_average vs))"
      by (simp add: val uniform_average_def)
  next
    assume h: "rsum vs \<noteq> (0, 0, 0) \<and>
      vector_block_average (map vfin vs) (map Fin ws) = Inr (vfin (uniform_average vs))"
    then have "vfin (rdivs (rsum vs) (sum_list ws)) = vfin (uniform_average vs)"
      by (simp add: val)
    then have "rdivs (rsum vs) (sum_list ws) = uniform_average vs"
      by (rule vfin_inject)
    then have "rdivs (a, b, c) (sum_list ws) = rdivs (a, b, c) (real (length vs))"
      by (simp only: S uniform_average_def)
    moreover from h have "(a, b, c) \<noteq> (0, 0, 0)"
      by (simp add: S)
    ultimately show "sum_list ws = real (length vs)"
      using rdivs_cancel [OF assms(3) n] by blast
  qed
qed

theorem vector_block_average_unweighted_sum_witness:
  "vector_block_average (map vfin [(1, 2, 3), (3, 4, 5)]) (map Fin [1, 1])
     = Inr (vfin (2, 3, 4))
   \<and> uniform_average [(1, 2, 3), (3, 4, 5)] = (2, 3, 4)
   \<and> rsum [(1, 2, 3), (3, 4, 5)] \<noteq> (0, 0, 0)
   \<and> sum_list [1, 1 :: real] = real (length [(1, 2, 3), (3, 4, 5) :: rvec])"
  using vector_block_average_unweighted_sum [of "[(1, 2, 3), (3, 4, 5)]" "[1, 1]"]
  by (simp add: uniform_average_def rsum_def)

text \<open>
  C10 as stated fails where the vectors sum to zero: the result is then the zero vector,
  which is the uniform average, whatever the weights sum to.
\<close>

theorem vector_block_average_only_when_counterexample:
  "vector_block_average (map vfin [(1, 0, 0), (-1, 0, 0)]) (map Fin [1, 2])
     = Inr (vfin (uniform_average [(1, 0, 0), (-1, 0, 0)]))
   \<and> sum_list [1, 2 :: real] \<noteq> 0
   \<and> sum_list [1, 2 :: real] \<noteq> real (length [(1, 0, 0), (-1, 0, 0) :: rvec])"
  by (simp add: vector_block_average_def read_at_def upt_conv_Cons vfin_def vzero_def
      uniform_average_def rsum_def)

section \<open>Claims about fuse_affinities\<close>

text \<open>
  C9. The size check of \<open>fuse_affinities\<close> reports an error exactly when the two
  matrices have different numbers of rows (it reads \<open>rows()\<close> where the numbers of
  columns are meant). So a matrix of shape \<open>N \<times> N\<^sub>t\<close> and one of the transposed shape
  \<open>N\<^sub>t \<times> N\<close> with \<open>N \<noteq> N\<^sub>t\<close> are reported as wrong, and two matrices of the same shape
  that is not square, which are not transposes of each other, are not reported.
\<close>

theorem fuse_affinities_size_check:
  "(SizesWrong \<in> set (fst (fuse_affinities A1 A2))) = (rows A1 \<noteq> rows A2)
   \<and> (rows A1 = cols A2 \<and> cols A1 = rows A2 \<and> rows A1 \<noteq> cols A1
        \<longrightarrow> SizesWrong \<in> set (fst (fuse_affinities A1 A2)))
   \<and> (rows A1 = rows A2 \<and> cols A1 = cols A2 \<and> cols A1 \<noteq> rows A1
        \<longrightarrow> SizesWrong \<notin> set (fst (fuse_affinities A1 A2)))"
  by (auto simp: fuse_affinities_def Let_def)

theorem fuse_affinities_size_check_witness:
  "SizesWrong \<in> set (fst (fuse_affinities (fin_mat 2 3 [[1, 0, 0], [0, 1/2, 1/2]])
                             (fin_mat 3 2 [[1, 0], [0, 0], [0, 1]])))
   \<and> SizesWrong \<notin> set (fst (fuse_affinities (fin_mat 2 3 [[1, 0, 0], [0, 1/2, 1/2]])
                                (fin_mat 2 3 [[1, 0, 0], [0, 1, 0]])))"
  using fuse_affinities_size_check [of "fin_mat 2 3 [[1, 0, 0], [0, 1/2, 1/2]]"
                                       "fin_mat 3 2 [[1, 0], [0, 0], [0, 1]]"]
        fuse_affinities_size_check [of "fin_mat 2 3 [[1, 0, 0], [0, 1/2, 1/2]]"
                                       "fin_mat 2 3 [[1, 0, 0], [0, 1, 0]]"]
  by (simp add: fin_mat_def)

text \<open>
  C4. For affinity matrices of finite coefficients and transposed shapes, where every
  row of \<open>A1 + A2\<^sup>T\<close> has a sum other than zero, the code (sum, then normalise the rows)
  and the formulation of the specification (half the sum, then normalise the rows)
  return the same matrix, and it is row-stochastic.
\<close>

theorem fuse_affinities_refines_spec:
  assumes "wf_rows n m R1" "wf_rows m n R2"
    and "list_all (\<lambda>r. sum_list r \<noteq> 0) (summed_rows R1 R2)"
  shows "snd (fuse_affinities (fin_mat n m R1) (fin_mat m n R2))
           = fuse_affinities_spec (fin_mat n m R1) (fin_mat m n R2)
       \<and> (\<exists>M. fuse_affinities_spec (fin_mat n m R1) (fin_mat m n R2) = Inr M
              \<and> row_stochastic M)"
proof -
  have add: "mat_add (fin_mat n m R1) (transpose_mat (fin_mat m n R2))
      = Inr (fin_mat n m (summed_rows R1 R2))"
    by (rule mat_add_transpose_fin [OF assms(1,2)])
  have code: "snd (fuse_affinities (fin_mat n m R1) (fin_mat m n R2))
      = Inr (normalize_sparse_matrix (fin_mat n m (summed_rows R1 R2)))"
    by (simp add: fuse_affinities_def Let_def add)
  have spec: "fuse_affinities_spec (fin_mat n m R1) (fin_mat m n R2)
      = Inr (normalize_sparse_matrix (fin_mat n m (summed_rows R1 R2)))"
    by (simp add: fuse_affinities_spec_def add normalize_scale_half)
  have "row_stochastic (normalize_sparse_matrix (fin_mat n m (summed_rows R1 R2)))"
    by (rule row_stochastic_normalize [OF wf_rows_summed [OF assms(1,2)] assms(3)])
  with code spec show ?thesis by simp
qed

theorem fuse_affinities_refines_spec_witness:
  "wf_rows 1 2 [[1, 0]] \<and> wf_rows 2 1 [[1], [2]]
   \<and> summed_rows [[1, 0]] [[1], [2]] = [[2, 2]]
   \<and> snd (fuse_affinities (fin_mat 1 2 [[1, 0]]) (fin_mat 2 1 [[1], [2]]))
       = fuse_affinities_spec (fin_mat 1 2 [[1, 0]]) (fin_mat 2 1 [[1], [2]])
   \<and> (\<exists>M. fuse_affinities_spec (fin_mat 1 2 [[1, 0]]) (fin_mat 2 1 [[1], [2]]) = Inr M
          \<and> row_stochastic M)"
  using fuse_affinities_refines_spec [of 1 2 "[[1, 0]]" "[[1], [2]]"]
  by (simp add: wf_rows_def summed_rows_def)

text \<open>
  C6. For affinity matrices of finite, non-negative weights and transposed shapes,
  whenever each row of the summed matrix \<open>A1 + A2\<^sup>T\<close> is non-zero, \<open>fuse_affinities\<close>
  returns a matrix of the shape of \<open>A1\<close> in which every row sums to 1.
\<close>

theorem fuse_affinities_row_sums:
  assumes "wf_rows n m R1" "wf_rows m n R2"
    and "list_all (list_all (\<lambda>x. 0 \<le> x)) R1" "list_all (list_all (\<lambda>x. 0 \<le> x)) R2"
    and "list_all (list_ex (\<lambda>x. x \<noteq> 0)) (summed_rows R1 R2)"
  shows "\<exists>M. snd (fuse_affinities (fin_mat n m R1) (fin_mat m n R2)) = Inr M
           \<and> rows M = n \<and> cols M = m \<and> wf_mat M
           \<and> list_all (\<lambda>r. fsum r = Fin 1) (coeffs M)"
proof -
  have nz: "list_all (\<lambda>r. sum_list r \<noteq> 0) (summed_rows R1 R2)"
    using summed_rows_nonneg [OF assms(1-4)] assms(5) nonneg_nonzero_sum
    by (auto simp: list_all_iff)
  have "snd (fuse_affinities (fin_mat n m R1) (fin_mat m n R2))
      = Inr (normalize_sparse_matrix (fin_mat n m (summed_rows R1 R2)))"
    by (simp add: fuse_affinities_def Let_def mat_add_transpose_fin [OF assms(1,2)])
  moreover have "row_stochastic (normalize_sparse_matrix (fin_mat n m (summed_rows R1 R2)))"
    by (rule row_stochastic_normalize [OF wf_rows_summed [OF assms(1,2)] nz])
  moreover have "rows (normalize_sparse_matrix (fin_mat n m S)) = n
      \<and> cols (normalize_sparse_matrix (fin_mat n m S)) = m" for S
    by (simp add: normalize_sparse_matrix_def fin_mat_def)
  ultimately show ?thesis
    by (simp add: row_stochastic_def)
qed

theorem fuse_affinities_row_sums_witness:
  "wf_rows 2 3 [[1, 0, 0], [0, 1/2, 1/2]] \<and> wf_rows 3 2 [[1, 0], [0, 0], [0, 1]]
   \<and> summed_rows [[1, 0, 0], [0, 1/2, 1/2]] [[1, 0], [0, 0], [0, 1]]
       = [[2, 0, 0], [0, 1/2, 3/2]]
   \<and> (\<exists>M. snd (fuse_affinities (fin_mat 2 3 [[1, 0, 0], [0, 1/2, 1/2]])
                  (fin_mat 3 2 [[1, 0], [0, 0], [0, 1]])) = Inr M
          \<and> rows M = 2 \<and> cols M = 3 \<and> wf_mat M
          \<and> list_all (\<lambda>r. fsum r = Fin 1) (coeffs M))"
  using fuse_affinities_row_sums [of 2 3 "[[1, 0, 0], [0, 1/2, 1/2]]" "[[1, 0], [0, 0], [0, 1]]"]
  by (simp add: wf_rows_def summed_rows_def upt_conv_Cons)

section \<open>Claims about affinity_to_correspondences\<close>

text \<open>
  C5. The rounding loop of \<open>affinity_to_correspondences\<close> stops at the number of rows of
  the target features, not at the number of output flags. With three floating
  elements (the rows of the affinity matrix) and two target elements, the third
  weighted flag, \<open>1/2\<close>, is returned as it is: it is neither 0 nor 1, and it has not been
  rounded down although it does not exceed the limit 0.9.
\<close>

theorem affinity_to_correspondences_leaves_flag_unrounded:
  "affinity_to_correspondences
     [(vfin (0, 0, 0), vfin (0, 0, 1)), (vfin (1, 0, 0), vfin (0, 0, 1))]
     [Fin 1, Fin 0]
     \<lparr>rows = 3, cols = 2,
      coeffs = [[Fin 1, Fin 0], [Fin 0, Fin 1], [Fin (1 / 2), Fin (1 / 2)]]\<rparr>
     default_flag_rounding_limit
   = Inr ([(vfin (0, 0, 0), vfin (0, 0, 1)), (vfin (1, 0, 0), vfin (0, 0, 1)),
           (vfin (1 / 2, 0, 0), vfin (0, 0, 1))],
          [Fin 1, Fin 0, Fin (1 / 2)])"
  by (simp add: affinity_to_correspondences_def mat_times_features_def mat_times_vec_def
      read_at_def write_at_def fsum_def feature_zero_def vzero_def vfin_def
      default_flag_rounding_limit_def)

section \<open>Claims about Gaussian smoothing\<close>




section \<open>Claims about viscoelastic_transformation\<close>

text \<open>
  C1. With no elastic smoothing iteration the displacement field is not stored: one
  vertex at the origin whose correspondence is at \<open>(1, 0, 0)\<close>, weight 1, a zero
  displacement field, one neighbour, one viscous and no elastic iteration. The vertex
  is moved to \<open>(1, 0, 0)\<close> while the displacement field that is returned is still zero,
  so the new position is not the position at entry plus the displacement field.
\<close>

theorem viscoelastic_no_elastic_iteration:
  "viscoelastic_transformation (fixed_neighbours [[0]])
     [(vfin (0, 0, 0), vfin (0, 0, 1))] [(vfin (1, 0, 0), vfin (0, 0, 1))] [Fin 1]
     [vfin (0, 0, 0)] 1 (Fin 3) 1 0
   = Inr ([(vfin (1, 0, 0), vfin (0, 0, 1))], [vfin (0, 0, 0)])
   \<and> vadd (vfin (0, 0, 0)) (vfin (0, 0, 0)) \<noteq> vfin (1, 0, 0)"
  by (simp add: viscoelastic_transformation_def vecmat_sub_def vecmat_add_def
      gaussian_smoothing_vector_field_def gather_neighbours_def
      gaussian_interpolate_vector_field_def fixed_neighbours_def read_at_def write_at_def
      Let_def vfin_def vzero_def float_underflow_one)

section \<open>Claims about rigid_transformation\<close>

text \<open>
  C2. \<open>rigid_transformation\<close> computes the translation \<open>t = \<mu>\<^sub>c - s R \<mu>\<^sub>f\<close> and then applies
  \<open>rotationMatrix * translationMatrix\<close>, that is \<open>f \<leftarrow> s R (f + t)\<close>, not
  \<open>f \<leftarrow> s R f + t\<close>. For the seven vertices of \<open>cross_floating\<close>, whose correspondences
  are their images under a half turn about the z axis followed by the translation
  \<open>(1, 0, 0)\<close>, the code finds that rotation, scale 1 and that translation, from an
  eigen-decomposition of its matrix \<open>Q\<close>; \<open>s R f + t\<close> is then exactly the
  corresponding position of every vertex, and the code returns other positions.
\<close>

theorem rigid_transformation_translates_before_rotating:
  "rigid_estimation (constant_solver cross_decomposition) cross_floating cross_corresponding
     cross_weights False = Inr cross_estimate
   \<and> is_eigen_decomposition (est_Q cross_estimate)
        (constant_solver cross_decomposition (est_Q cross_estimate))
   \<and> rigid_transformation (constant_solver cross_decomposition) cross_floating
        cross_corresponding cross_weights False = Inr ([], cross_moved)
   \<and> map (similarity_update (est_scaleFactor cross_estimate) (est_rotMatTemp cross_estimate)
             (est_translation cross_estimate)) (map fst cross_floating)
       = map fst cross_corresponding
   \<and> map fst cross_moved \<noteq> map fst cross_corresponding
   \<and> fst (cross_moved ! 0) = vfin (- 2, 0, 0)
   \<and> fst (cross_corresponding ! 0) = vfin (0, 0, 0)"
proof -
  have "map (similarity_update (Fin 1) half_turn_z (vfin (1, 0, 0))) (map fst cross_floating)
      = map fst cross_corresponding"
    by (simp add: similarity_update_def half_turn_z_def cross_floating_def
        cross_corresponding_def vfin_def)
  moreover have "map fst cross_moved \<noteq> map fst cross_corresponding"
    by (simp add: cross_moved_def cross_corresponding_def vfin_def)
  moreover have "fst (cross_moved ! 0) = vfin (- 2, 0, 0)"
      "fst (cross_corresponding ! 0) = vfin (0, 0, 0)"
    by (simp_all add: cross_moved_def cross_corresponding_def)
  ultimately show ?thesis
    using cross_estimation cross_transformation cross_decomposition_is_eigen
    by (simp add: cross_estimate_def constant_solver_def)
qed

text \<open>
  C3 (as amended). \<open>rigid_transformation\<close> writes columns 0 to 2 of every row only: for
  feature matrices and weights of equal numbers of rows it returns, and the normal of
  every floating feature row is what it was before the call (it is neither rotated nor
  renormalised).
\<close>

theorem rigid_transformation_leaves_normals:
  assumes "length C = length F" "length W = length F"
  shows "\<exists>diags F'. rigid_transformation decomposer F C W scaling = Inr (diags, F')
           \<and> map snd F' = map snd F"
proof -
  from rigid_transformation_returns [OF assms] obtain diags F' where
    r: "rigid_transformation decomposer F C W scaling = Inr (diags, F')"
    by blast
  from normals_kept_by_rigid_transformation [OF r] have "map snd F' = map snd F" .
  with r show ?thesis by blast
qed

theorem rigid_transformation_leaves_normals_witness:
  "length cross_corresponding = length cross_floating
   \<and> length cross_weights = length cross_floating
   \<and> rigid_transformation (constant_solver cross_decomposition) cross_floating
        cross_corresponding cross_weights False = Inr ([], cross_moved)
   \<and> map snd cross_moved = map snd cross_floating"
proof -
  have len: "length cross_corresponding = length cross_floating"
      "length cross_weights = length cross_floating"
    by (simp_all add: cross_corresponding_def cross_floating_def cross_weights_def)
  from rigid_transformation_leaves_normals [OF len, of "constant_solver cross_decomposition" False]
  show ?thesis
    using len by (simp add: cross_transformation)
qed

text \<open>
  C3 as stated fails for the same input: the rotation that is computed is the half
  turn about the z axis, which takes the first normal \<open>(1, 0, 0)\<close> to \<open>(- 1, 0, 0)\<close>, but
  the first normal that is returned is \<open>(1, 0, 0)\<close>; and the last normal that is
  returned is \<open>(0, 0, 2)\<close>, whose length is 2.
\<close>

theorem rigid_transformation_normals_counterexample:
  "rigid_estimation (constant_solver cross_decomposition) cross_floating cross_corresponding
     cross_weights False = Inr cross_estimate
   \<and> rigid_transformation (constant_solver cross_decomposition) cross_floating
        cross_corresponding cross_weights False = Inr ([], cross_moved)
   \<and> m3vec (est_rotMatTemp cross_estimate) (snd (cross_floating ! 0)) = vfin (- 1, 0, 0)
   \<and> snd (cross_moved ! 0) = vfin (1, 0, 0)
   \<and> snd (cross_moved ! 6) = vfin (0, 0, 2)
   \<and> vdot (snd (cross_moved ! 6)) (snd (cross_moved ! 6)) = Fin 4
   \<and> (4 :: real) > (1 + 1 / 100000) ^ 2"
proof -
  have "m3vec half_turn_z (snd (cross_floating ! 0)) = vfin (- 1, 0, 0)"
    by (simp add: half_turn_z_def cross_floating_def vfin_def)
  moreover have "snd (cross_moved ! 0) = vfin (1, 0, 0)" "snd (cross_moved ! 6) = vfin (0, 0, 2)"
    by (simp_all add: cross_moved_def)
  moreover have "vdot (vfin (0, 0, 2)) (vfin (0, 0, 2)) = Fin 4"
    by (simp add: vfin_def)
  moreover have "(4 :: real) > (1 + 1 / 100000) ^ 2"
    by (simp add: power2_eq_square)
  ultimately show ?thesis
    using cross_estimation cross_transformation
    by (simp add: cross_estimate_def)
qed

text \<open>
  C8 (as amended). \<open>rigid_transformation\<close> does not check the sum of the weights. When
  every weight is zero (and the feature matrices and the weights have equal numbers of
  rows) it neither skips the update nor aborts: both centroids are divided by the zero
  sum, the translation is non-finite, and the call returns with every floating position
  overwritten by non-finite values; the normals are left as they were.
\<close>

theorem rigid_transformation_zero_weights:
  assumes "length C = length F" "length W = length F" "\<forall>w \<in> set W. w = Fin 0"
  shows "\<exists>diags. rigid_transformation decomposer F C W scaling
           = Inr (diags, map (\<lambda>f. (vnonfin, snd f)) F)"
  by (rule zero_weights_rigid_result [OF assms])

theorem rigid_transformation_zero_weights_witness:
  "length cross_corresponding = length cross_floating
   \<and> length zero_weights = length cross_floating
   \<and> set zero_weights = {Fin 0}
   \<and> (\<exists>diags. rigid_transformation (constant_solver failed_decomposition) cross_floating
          cross_corresponding zero_weights False
        = Inr (diags, map (\<lambda>f. (vnonfin, snd f)) cross_floating))"
proof -
  have h: "length cross_corresponding = length cross_floating"
      "length zero_weights = length cross_floating" "\<forall>w \<in> set zero_weights. w = Fin 0"
    by (simp_all add: cross_corresponding_def cross_floating_def zero_weights_def)
  have "set zero_weights = {Fin 0}"
    by (simp add: zero_weights_def)
  with rigid_transformation_zero_weights [OF h, of "constant_solver failed_decomposition" False]
  show ?thesis
    using h by simp
qed

text \<open>
  C8 as stated fails: with the weights all zero and a solver that reports a failure,
  the call writes the diagnostic of the solver and returns; the positions it returns
  are not the ones it was given, they are non-finite.
\<close>

theorem rigid_transformation_zero_weights_counterexample:
  "rigid_transformation (constant_solver failed_decomposition) cross_floating
     cross_corresponding zero_weights False
   = Inr ([EigenDecompositionFailed], map (\<lambda>f. (vnonfin, snd f)) cross_floating)
   \<and> map (\<lambda>f. (vnonfin, snd f)) cross_floating \<noteq> cross_floating"
  by (simp add: rigid_transformation_def rigid_estimation_def rigid_centroids_def
      rigid_cross_variance_def rigid_Q_def rigid_scale_def select_rotation_quaternion_def
      rigid_apply_def rigid_transformation_matrix_def v4m4_def
      constant_solver_def failed_decomposition_def cross_floating_def
      cross_corresponding_def zero_weights_def NUM_FEATURES_def Let_def read_at_def
      m3zero_def m3identity_def vfin_def vzero_def vnonfin_def)

end
